theory Spec2Isabelle
  imports Main
begin

section \<open>Python values, exceptions and iteration\<close>

text \<open>
  The labels of a ground set are hashable Python values. The model has integers, strings
  and tuples of such values; a sign token of a ternary vector is a value of the same
  type (\<open>1\<close>, \<open>'+'\<close>, ...), and so is an entry of a tuple passed as \<open>data\<close>.
\<close>

datatype pyval = PInt int | PStr string | PTuple "pyval list"

text \<open>An exception is a value: its class and its message.\<close>

datatype error =
    ValueError string
  | TypeError string
  | IndexError string
  | UnboundLocalError string

text \<open>Sequencing of computations that may raise: the first exception is the result.\<close>

fun and_then :: "error + 'a \<Rightarrow> ('a \<Rightarrow> error + 'b) \<Rightarrow> error + 'b" where
  "and_then (Inl e) f = Inl e"
| "and_then (Inr x) f = f x"

fun for_each :: "('a \<Rightarrow> error + 'b) \<Rightarrow> 'a list \<Rightarrow> error + 'b list" where
  "for_each f [] = Inr []"
| "for_each f (x # xs) = and_then (f x) (\<lambda>y. and_then (for_each f xs) (\<lambda>ys. Inr (y # ys)))"

text \<open>
  A collection handed to \<open>set(...)\<close>: a Python value (a tuple gives its entries, a string
  its characters, an integer is not iterable), or an object that is a set or a list
  already, given by its elements.
\<close>

datatype pycoll = Val pyval | Elements "pyval set"

fun py_set :: "pycoll \<Rightarrow> error + pyval set" where
  "py_set (Val (PInt i)) = Inl (TypeError ''int object is not iterable'')"
| "py_set (Val (PStr s)) = Inr (set (map (\<lambda>c. PStr [c]) s))"
| "py_set (Val (PTuple xs)) = Inr (set xs)"
| "py_set (Elements S) = Inr S"

section \<open>Signed subsets (signed\_subset\_element.py)\<close>

text \<open>
  What an element sees of its parent: \<open>parent.groundset()\<close> (\<open>None\<close> when the call
  raises \<open>AttributeError\<close>) and whether \<open>getattr(parent, 'face_lattice', None)\<close> is
  not \<open>None\<close>.
\<close>

record Parent =
  parent_groundset :: "pyval list option"
  has_face_lattice :: bool

text \<open>\<open>Parent()\<close>: a bare parent, with no ground set and no face lattice.\<close>

definition Parent_new :: Parent where
  "Parent_new = \<lparr>parent_groundset = None, has_face_lattice = False\<rparr>"

text \<open>The fields \<open>_p\<close>, \<open>_n\<close>, \<open>_z\<close>, \<open>_g\<close> under the names of their accessors.\<close>

record sse =
  parent :: Parent
  positives :: "pyval set"
  negatives :: "pyval set"
  zeroes :: "pyval set"
  groundset :: "pyval list"

text \<open>
  An argument of the constructor: \<open>None\<close>, a parent, a signed subset, a tuple, a
  dictionary with string keys, or anything else (a list, a number).
\<close>

datatype pyobj =
    ONone
  | OParent Parent
  | OElement sse
  | OTuple "pyval list"
  | ODict "string \<Rightarrow> pycoll option"
  | OOther

text \<open>\<open>try: groundset = parent.groundset() except AttributeError: groundset = None\<close>\<close>

fun groundset_attr :: "pyobj \<Rightarrow> pyval list option" where
  "groundset_attr (OParent P) = parent_groundset P"
| "groundset_attr (OElement X) = Some (groundset X)"
| "groundset_attr ONone = None"
| "groundset_attr (OTuple xs) = None"
| "groundset_attr (ODict d) = None"
| "groundset_attr OOther = None"

definition effective_groundset :: "pyobj \<Rightarrow> pyval list option \<Rightarrow> pyval list option" where
  "effective_groundset par gsarg = (case gsarg of Some g \<Rightarrow> Some g | None \<Rightarrow> groundset_attr par)"

fun is_none :: "pyobj \<Rightarrow> bool" where
  "is_none ONone = True"
| "is_none (OParent P) = False"
| "is_none (OElement X) = False"
| "is_none (OTuple xs) = False"
| "is_none (ODict d) = False"
| "is_none OOther = False"

text \<open>
  \<open>if parent is None or (data is None and groundset is None and positives is None)\<close>:
  the first argument is the data and the parent is a fresh \<open>Parent()\<close>.
\<close>

definition parent_is_data :: "pyobj \<Rightarrow> pyobj \<Rightarrow> pyval list option \<Rightarrow> pycoll option \<Rightarrow> bool" where
  "parent_is_data par data gs pos = (is_none par \<or> (is_none data \<and> gs = None \<and> pos = None))"

text \<open>The tokens that select the vector format: \<open>data[0] in [-1, 0, 1, '+', '0', '-', '']\<close>.\<close>

definition sign_tokens :: "pyval list" where
  "sign_tokens = [PInt (- 1), PInt 0, PInt 1, PStr ''+'', PStr ''0'', PStr ''-'', PStr '''']"

text \<open>
  \<open>for i, j in enumerate(data)\<close>: the label is the position, or the ground set's entry
  at the position; the accumulator holds \<open>_p\<close>, \<open>_n\<close>, \<open>_z\<close>. The length check before
  the loop keeps \<open>groundset[i]\<close> in range.
\<close>

fun vector_loop :: "pyval list option \<Rightarrow> nat \<Rightarrow> pyval list \<Rightarrow>
    pyval set \<times> pyval set \<times> pyval set \<Rightarrow> error + pyval set \<times> pyval set \<times> pyval set" where
  "vector_loop gs i [] acc = Inr acc"
| "vector_loop gs i (j # js) (P, N, Z) =
     (let label = (case gs of None \<Rightarrow> PInt (int i) | Some g \<Rightarrow> g ! i) in
      if j = PInt (- 1) \<or> j = PStr ''-'' then vector_loop gs (Suc i) js (P, insert label N, Z)
      else if j = PInt 1 \<or> j = PStr ''+'' then vector_loop gs (Suc i) js (insert label P, N, Z)
      else if j = PInt 0 \<or> j = PStr '''' \<or> j = PStr ''0'' then vector_loop gs (Suc i) js (P, N, insert label Z)
      else Inl (ValueError ''Must be tuple of -1, 0, 1''))"

text \<open>The branch \<open>isinstance(data, tuple)\<close>.\<close>

definition tuple_sets :: "pyval list \<Rightarrow> pyval list option \<Rightarrow> error + pyval set \<times> pyval set \<times> pyval set" where
  "tuple_sets xs gs =
     (case xs of
        [] \<Rightarrow> Inl (IndexError ''tuple index out of range'')
      | x0 # rest \<Rightarrow>
          if x0 \<in> set sign_tokens then
            (case gs of
               Some g \<Rightarrow>
                 if length xs \<noteq> length g
                 then Inl (ValueError ''Length of vector must be same number of elements as ground set'')
                 else vector_loop gs 0 xs ({}, {}, {})
             | None \<Rightarrow> vector_loop gs 0 xs ({}, {}, {}))
          else
            and_then (py_set (Val x0)) (\<lambda>P.
              case rest of
                [] \<Rightarrow> Inl (IndexError ''tuple index out of range'')
              | x1 # rest' \<Rightarrow>
                  and_then (py_set (Val x1)) (\<lambda>N.
                    case rest' of
                      x2 # others \<Rightarrow> and_then (py_set (Val x2)) (\<lambda>Z. Inr (P, N, Z))
                    | [] \<Rightarrow>
                        (case gs of
                           Some g \<Rightarrow> Inr (P, N, set g - P - N)
                         | None \<Rightarrow> Inr (P, N, {})))))"

text \<open>
  The branch \<open>isinstance(data, dict)\<close>: a long key overrides its short form, an absent
  pair leaves the empty set, and the values go through \<open>set(...)\<close> (the "type fix").
\<close>

definition dict_entry :: "(string \<Rightarrow> pycoll option) \<Rightarrow> string \<Rightarrow> string \<Rightarrow> error + pyval set" where
  "dict_entry d short long =
     (case d long of
        Some v \<Rightarrow> py_set v
      | None \<Rightarrow> (case d short of Some v \<Rightarrow> py_set v | None \<Rightarrow> Inr {}))"

definition dict_sets :: "(string \<Rightarrow> pycoll option) \<Rightarrow> error + pyval set \<times> pyval set \<times> pyval set" where
  "dict_sets d =
     and_then (dict_entry d ''p'' ''positives'') (\<lambda>P.
     and_then (dict_entry d ''n'' ''negatives'') (\<lambda>N.
     and_then (dict_entry d ''z'' ''zeroes'') (\<lambda>Z. Inr (P, N, Z))))"

text \<open>The branch \<open>positives is not None\<close>.\<close>

definition keyword_sets :: "pycoll \<Rightarrow> pycoll option \<Rightarrow> pycoll option \<Rightarrow> pyval list option \<Rightarrow>
    error + pyval set \<times> pyval set \<times> pyval set" where
  "keyword_sets ps neg zer gs =
     (case neg of
        None \<Rightarrow> Inl (ValueError ''If positives is set, negatives must be as well'')
      | Some ns \<Rightarrow>
          and_then (py_set ps) (\<lambda>P.
          and_then (py_set ns) (\<lambda>N.
            case zer of
              None \<Rightarrow> (case gs of None \<Rightarrow> Inr (P, N, {}) | Some g \<Rightarrow> Inr (P, N, set g - P - N))
            | Some zs \<Rightarrow> and_then (py_set zs) (\<lambda>Z. Inr (P, N, Z)))))"

text \<open>The choice among the input shapes.\<close>

definition init_sets :: "pyobj \<Rightarrow> pyval list option \<Rightarrow> pycoll option \<Rightarrow> pycoll option \<Rightarrow> pycoll option \<Rightarrow>
    error + pyval set \<times> pyval set \<times> pyval set" where
  "init_sets data gs pos neg zer =
     (case pos of
        Some ps \<Rightarrow> keyword_sets ps neg zer gs
      | None \<Rightarrow>
          (case data of
             OElement D \<Rightarrow> Inr (positives D, negatives D, zeroes D)
           | OTuple xs \<Rightarrow> tuple_sets xs gs
           | ODict d \<Rightarrow> dict_sets d
           | ONone \<Rightarrow> Inl (ValueError ''Either positives and negatives are set or data is a tuple, OrientedMatroidELement or a dict'')
           | OParent P \<Rightarrow> Inl (ValueError ''Either positives and negatives are set or data is a tuple, OrientedMatroidELement or a dict'')
           | OOther \<Rightarrow> Inl (ValueError ''Either positives and negatives are set or data is a tuple, OrientedMatroidELement or a dict'')))"

text \<open>
  "Setup the ground set": without a ground set it is \<open>list(p | n | z)\<close>, in the order
  in which Python iterates over the set (the parameter \<open>set_order\<close>); with one, the two
  inclusion checks. (\<open>self._z is None\<close> never holds there.)
\<close>

definition init_ground :: "(pyval set \<Rightarrow> pyval list) \<Rightarrow> pyval list option \<Rightarrow>
    pyval set \<Rightarrow> pyval set \<Rightarrow> pyval set \<Rightarrow> error + pyval list" where
  "init_ground set_order gs P N Z =
     (case gs of
        None \<Rightarrow> Inr (set_order (P \<union> N \<union> Z))
      | Some g \<Rightarrow>
          if \<not> (P \<union> N \<union> Z \<subseteq> set g) then Inl (ValueError ''Elements must appear in groundset'')
          else if \<not> (set g \<subseteq> P \<union> N \<union> Z)
          then Inl (ValueError ''Every element must be either positive, negative or zero'')
          else Inr g)"

text \<open>
  \<open>Element.__init__(self, parent)\<close> of the base class, which takes a parent object
  only; the model returns the finished element.
\<close>

definition Element_init :: "pyobj \<Rightarrow> pyval set \<times> pyval set \<times> pyval set \<Rightarrow> pyval list \<Rightarrow> error + sse" where
  "Element_init par sets g =
     (case par of
        OParent Pa \<Rightarrow>
          Inr \<lparr>parent = Pa, positives = fst sets, negatives = fst (snd sets), zeroes = snd (snd sets),
               groundset = g\<rparr>
      | ONone \<Rightarrow> Inl (TypeError ''parent must be a Parent'')
      | OElement X \<Rightarrow> Inl (TypeError ''parent must be a Parent'')
      | OTuple xs \<Rightarrow> Inl (TypeError ''parent must be a Parent'')
      | ODict d \<Rightarrow> Inl (TypeError ''parent must be a Parent'')
      | OOther \<Rightarrow> Inl (TypeError ''parent must be a Parent''))"

text \<open>\<open>SignedSubsetElement.__init__\<close>.\<close>

definition SignedSubsetElement :: "(pyval set \<Rightarrow> pyval list) \<Rightarrow> pyobj \<Rightarrow> pyobj \<Rightarrow> pyval list option \<Rightarrow>
    pycoll option \<Rightarrow> pycoll option \<Rightarrow> pycoll option \<Rightarrow> error + sse" where
  "SignedSubsetElement set_order par data gsarg pos neg zer =
     (let gs = effective_groundset par gsarg;
          swap = parent_is_data par data gs pos;
          data' = (if swap then par else data);
          par' = (if swap then OParent Parent_new else par)
      in and_then (init_sets data' gs pos neg zer) (\<lambda>sets.
         and_then (init_ground set_order gs (fst sets) (fst (snd sets)) (snd (snd sets))) (\<lambda>g.
           Element_init par' sets g)))"

text \<open>\<open>__call__\<close>: the sign of a label.\<close>

definition call :: "sse \<Rightarrow> pyval \<Rightarrow> error + int" where
  "call X var =
     (if var \<in> positives X then Inr 1
      else if var \<in> negatives X then Inr (- 1)
      else if var \<in> zeroes X then Inr 0
      else Inl (ValueError ''Not in groundset''))"

text \<open>\<open>__eq__\<close> between two signed subsets.\<close>

definition eq :: "sse \<Rightarrow> sse \<Rightarrow> bool" where
  "eq X Y = (positives X = positives Y \<and> negatives X = negatives Y \<and> zeroes X = zeroes Y)"

text \<open>\<open>__iter__\<close>, read to its end.\<close>

definition iter :: "sse \<Rightarrow> error + int list" where
  "iter X = for_each (call X) (groundset X)"

definition support :: "sse \<Rightarrow> pyval set" where
  "support X = positives X \<union> negatives X"

text \<open>\<open>__copy__\<close> and \<open>__neg__\<close> (which swaps the two fields of a copy).\<close>

definition copy :: "(pyval set \<Rightarrow> pyval list) \<Rightarrow> sse \<Rightarrow> error + sse" where
  "copy set_order X =
     SignedSubsetElement set_order (OParent (parent X)) ONone (Some (groundset X))
       (Some (Elements (positives X))) (Some (Elements (negatives X))) (Some (Elements (zeroes X)))"

definition neg :: "(pyval set \<Rightarrow> pyval list) \<Rightarrow> sse \<Rightarrow> error + sse" where
  "neg set_order X =
     and_then (copy set_order X) (\<lambda>N. Inr (N\<lparr>positives := negatives X, negatives := positives X\<rparr>))"

text \<open>
  \<open>composition\<close>: the loop over the ground set appends each label to one of the lists
  \<open>p\<close>, \<open>n\<close>, \<open>z\<close>; the result is built from the parent and the three lists.
\<close>

fun composition_loop :: "sse \<Rightarrow> sse \<Rightarrow> pyval list \<Rightarrow> pyval list \<times> pyval list \<times> pyval list \<Rightarrow>
    error + pyval list \<times> pyval list \<times> pyval list" where
  "composition_loop X Y [] acc = Inr acc"
| "composition_loop X Y (e # es) (p, n, z) =
     and_then (call X e) (\<lambda>x.
       if x = 1 then composition_loop X Y es (p @ [e], n, z)
       else if x = - 1 then composition_loop X Y es (p, n @ [e], z)
       else and_then (call Y e) (\<lambda>y.
         if y = 1 then composition_loop X Y es (p @ [e], n, z)
         else if y = - 1 then composition_loop X Y es (p, n @ [e], z)
         else composition_loop X Y es (p, n, z @ [e])))"

definition composition :: "(pyval set \<Rightarrow> pyval list) \<Rightarrow> sse \<Rightarrow> sse \<Rightarrow> error + sse" where
  "composition set_order X Y =
     and_then (composition_loop X Y (groundset X) ([], [], [])) (\<lambda>(p, n, z).
       SignedSubsetElement set_order (OParent (parent X)) ONone None
         (Some (Val (PTuple p))) (Some (Val (PTuple n))) (Some (Val (PTuple z))))"

definition separation_set :: "sse \<Rightarrow> sse \<Rightarrow> pyval set" where
  "separation_set X Y = (positives X \<inter> negatives Y) \<union> (negatives X \<inter> positives Y)"

text \<open>
  \<open>reorientation\<close>: a change set that is itself a label of the ground set is wrapped
  into a singleton; every label of the change set must be in the ground set.
\<close>

definition reorientation :: "(pyval set \<Rightarrow> pyval list) \<Rightarrow> sse \<Rightarrow> pyval \<Rightarrow> error + sse" where
  "reorientation set_order X change_set =
     and_then (if change_set \<in> set (groundset X) then Inr {change_set} else py_set (Val change_set)) (\<lambda>A.
       if \<not> (A \<subseteq> set (groundset X)) then Inl (ValueError ''{} is not in the ground set'')
       else SignedSubsetElement set_order (OParent (parent X)) ONone (Some (groundset X))
              (Some (Elements ((positives X - A) \<union> (negatives X \<inter> A))))
              (Some (Elements ((negatives X - A) \<union> (positives X \<inter> A)))) None)"

definition is_conformal_with :: "sse \<Rightarrow> sse \<Rightarrow> bool" where
  "is_conformal_with X Y = (card (separation_set X Y) = 0)"

definition is_restriction_of :: "sse \<Rightarrow> sse \<Rightarrow> bool" where
  "is_restriction_of X Y = (positives X \<subseteq> positives Y \<and> negatives X \<subseteq> negatives Y)"

text \<open>
  \<open>is_tope\<close>. The method \<open>topes\<close> of the parent is not part of these files: the model
  takes what \<open>self.parent().topes()\<close> returns as the parameter \<open>topes\<close>.
\<close>

definition is_tope :: "(Parent \<Rightarrow> error + sse list) \<Rightarrow> sse \<Rightarrow> error + bool" where
  "is_tope topes X =
     (if has_face_lattice (parent X)
      then Inl (TypeError ''Topes are only implemented if .face_lattice() is implemented'')
      else and_then (topes (parent X)) (\<lambda>ts. Inr (list_ex (eq X) ts)))"

definition is_zero :: "sse \<Rightarrow> error + bool" where
  "is_zero X =
     and_then (for_each (call X) (groundset X)) (\<lambda>signs. Inr (length (filter (\<lambda>s. s \<noteq> 0) signs) = 0))"

text \<open>
  \<open>__deepcopy__(self)\<close>: the method has no parameter besides \<open>self\<close>, so a call that
  passes further positional arguments raises \<open>TypeError\<close> before the body runs. The
  model takes the list of those arguments.
\<close>

definition deepcopy :: "(pyval set \<Rightarrow> pyval list) \<Rightarrow> sse \<Rightarrow> pyobj list \<Rightarrow> error + sse" where
  "deepcopy set_order X args =
     (if args \<noteq> [] then Inl (TypeError ''__deepcopy__() takes 1 positional argument but 2 were given'')
      else SignedSubsetElement set_order (OParent (parent X)) ONone (Some (groundset X))
             (Some (Elements (positives X))) (Some (Elements (negatives X))) (Some (Elements (zeroes X))))"

text \<open>
  \<open>copy.deepcopy\<close> of a list: the list of the deep copies of its entries. The copy of an
  object that has a \<open>__deepcopy__\<close> method is \<open>x.__deepcopy__(memo)\<close>, the memo being a
  dictionary.
\<close>

definition copy_deepcopy :: "(pyval set \<Rightarrow> pyval list) \<Rightarrow> sse list \<Rightarrow> error + sse list" where
  "copy_deepcopy set_order els = for_each (\<lambda>X. deepcopy set_order X [ODict (\<lambda>k. None)]) els"

section \<open>Covector systems (covector\_oriented\_matroid.py)\<close>

record covector_matroid =
  covectors :: "sse list"
  matroid_groundset :: "pyval list"

text \<open>
  A covector system as the parent of its elements. It has a \<open>face_lattice\<close> method; its
  \<open>groundset()\<close> raises \<open>AttributeError\<close> until \<open>__init__\<close> has set \<open>_groundset\<close>.
\<close>

definition matroid_parent :: "pyval list option \<Rightarrow> Parent" where
  "matroid_parent g = \<lparr>parent_groundset = g, has_face_lattice = True\<rparr>"

text \<open>
  \<open>CovectorOrientedMatroid.__init__\<close>. The element class is the signed subset class.
  The elements are built while the parent has no ground set yet; they refer to the
  parent, which has its ground set once \<open>__init__\<close> is over.
\<close>

definition CovectorOrientedMatroid :: "(pyval set \<Rightarrow> pyval list) \<Rightarrow> pyobj list \<Rightarrow> pyval list option \<Rightarrow>
    error + covector_matroid" where
  "CovectorOrientedMatroid set_order data gsarg =
     and_then (for_each (\<lambda>d. SignedSubsetElement set_order (OParent (matroid_parent None)) d gsarg None None None) data)
       (\<lambda>covs.
         and_then
           (case gsarg of
              Some g \<Rightarrow> Inr g
            | None \<Rightarrow>
                (case covs of
                   [] \<Rightarrow> Inl (IndexError ''list index out of range'')
                 | X0 # rest \<Rightarrow>
                     if list_ex (\<lambda>X. groundset X \<noteq> groundset X0) covs
                     then Inl (ValueError ''Groundsets must be the same'')
                     else Inr (groundset X0)))
           (\<lambda>g. Inr \<lparr>covectors = map (\<lambda>X. X\<lparr>parent := matroid_parent (Some g)\<rparr>) covs,
                      matroid_groundset = g\<rparr>))"

text \<open>\<open>x in covectors\<close>, by \<open>__eq__\<close>.\<close>

definition contains :: "sse list \<Rightarrow> sse \<Rightarrow> bool" where
  "contains covs x = list_ex (eq x) covs"

text \<open>
  The loops of \<open>is_valid\<close>, innermost first. \<open>for f in ze: if Z(f) != xy(f): found = False\<close>
\<close>

fun agree_loop :: "sse \<Rightarrow> sse \<Rightarrow> pyval list \<Rightarrow> bool \<Rightarrow> error + bool" where
  "agree_loop Z xy [] found = Inr found"
| "agree_loop Z xy (f # fs) found =
     and_then (call Z f) (\<lambda>a.
     and_then (call xy f) (\<lambda>b.
       agree_loop Z xy fs (if a \<noteq> b then False else found)))"

text \<open>\<open>for Z in covectors: if found: break; if Z(e) == 0: found = True; ...\<close>\<close>

fun witness_loop :: "sse list \<Rightarrow> pyval \<Rightarrow> pyval list \<Rightarrow> sse \<Rightarrow> bool \<Rightarrow> error + bool" where
  "witness_loop [] e ze xy found = Inr found"
| "witness_loop (Z # Zs) e ze xy found =
     (if found then Inr found
      else and_then (call Z e) (\<lambda>s.
        if s = 0 then and_then (agree_loop Z xy ze True) (\<lambda>found'. witness_loop Zs e ze xy found')
        else witness_loop Zs e ze xy found))"

text \<open>\<open>for e in E: found = False; ...; if not found: raise ValueError(...)\<close>\<close>

fun elimination_loop :: "sse list \<Rightarrow> pyval list \<Rightarrow> pyval list \<Rightarrow> sse \<Rightarrow> error + unit" where
  "elimination_loop covs [] ze xy = Inr ()"
| "elimination_loop covs (e # es) ze xy =
     and_then (witness_loop covs e ze xy False) (\<lambda>found.
       if \<not> found then Inl (ValueError ''weak elimination failed'')
       else elimination_loop covs es ze xy)"

text \<open>
  \<open>for Y in covectors\<close>: axioms 3 and 4. The sets \<open>E\<close> and \<open>ze\<close> are iterated over in
  Python's order for a set, the parameter \<open>set_order\<close>.
\<close>

fun pair_loop :: "(pyval set \<Rightarrow> pyval list) \<Rightarrow> covector_matroid \<Rightarrow> sse \<Rightarrow> sse list \<Rightarrow> error + unit" where
  "pair_loop set_order M X [] = Inr ()"
| "pair_loop set_order M X (Y # Ys) =
     and_then (composition set_order X Y) (\<lambda>c.
       if \<not> contains (covectors M) c then Inl (ValueError ''Composition must be in vectors'')
       else
         (let E = separation_set X Y;
              ze = set (matroid_groundset M) - E
          in and_then (composition set_order X Y) (\<lambda>xy.
             and_then (elimination_loop (covectors M) (set_order E) (set_order ze) xy) (\<lambda>u.
               pair_loop set_order M X Ys))))"

text \<open>
  \<open>for X in covectors\<close>. The state is the local variable \<open>zero_found\<close>: \<open>None\<close> while it
  is unbound (the assignment before the loop is to another name, \<open>zero_fouind\<close>).
\<close>

fun covector_loop :: "(pyval set \<Rightarrow> pyval list) \<Rightarrow> covector_matroid \<Rightarrow> sse list \<Rightarrow> bool option \<Rightarrow>
    error + bool option" where
  "covector_loop set_order M [] zero_found = Inr zero_found"
| "covector_loop set_order M (X # Xs) zero_found =
     and_then (is_zero X) (\<lambda>z.
     and_then (neg set_order X) (\<lambda>minus_X.
       if \<not> contains (covectors M) minus_X then Inl (ValueError ''Every element needs an opposite'')
       else and_then (pair_loop set_order M X (covectors M)) (\<lambda>u.
         covector_loop set_order M Xs (if z then Some True else zero_found))))"

definition is_valid :: "(pyval set \<Rightarrow> pyval list) \<Rightarrow> covector_matroid \<Rightarrow> error + bool" where
  "is_valid set_order M =
     and_then (covector_loop set_order M (covectors M) None) (\<lambda>zero_found.
       case zero_found of
         None \<Rightarrow> Inl (UnboundLocalError ''zero_found'')
       | Some b \<Rightarrow> if \<not> b then Inl (ValueError ''Empty set is required'') else Inr True)"

text \<open>
  The relations of the face poset, and what \<open>face_poset\<close> hands to \<open>Poset\<close>: the
  elements and the relations.
\<close>

definition face_relations :: "sse list \<Rightarrow> (sse \<times> sse) list" where
  "face_relations els =
     concat (map (\<lambda>X. map (\<lambda>Y. (Y, X))
       (filter (\<lambda>Y. is_conformal_with Y X \<and> support Y \<subseteq> support X) els)) els)"

definition face_poset :: "covector_matroid \<Rightarrow> sse list \<times> (sse \<times> sse) list" where
  "face_poset M = (covectors M, face_relations (covectors M))"

text \<open>
  An element of the face lattice: a covector, or the Python integer that \<open>face_lattice\<close>
  appends as the top (\<open>1\<close>), which is equal to no covector.
\<close>

datatype face = Covector sse | PyInt int

text \<open>
  The elements and the relations that \<open>face_lattice\<close> builds from the list of covectors
  \<open>els\<close>: the relations of the face poset, then \<open>(i, 1)\<close> for every covector \<open>i\<close>, and
  the element \<open>1\<close> appended.
\<close>

definition with_top :: "sse list \<Rightarrow> face list \<times> (face \<times> face) list" where
  "with_top els =
     (map Covector els @ [PyInt 1],
      map (\<lambda>(Y, X). (Covector Y, Covector X)) (face_relations els)
        @ map (\<lambda>i. (Covector i, PyInt 1)) els)"

text \<open>
  \<open>face_lattice\<close>: the covectors are deep-copied, then the relations are built and the
  top is added (\<open>with_top\<close>); the result is what is handed to \<open>LatticePoset\<close>.
\<close>

definition face_lattice :: "(pyval set \<Rightarrow> pyval list) \<Rightarrow> covector_matroid \<Rightarrow>
    error + face list \<times> (face \<times> face) list" where
  "face_lattice set_order M =
     and_then (copy_deepcopy set_order (covectors M)) (\<lambda>els. Inr (with_top els))"

section \<open>Notions used in the statements\<close>

text \<open>
  The sign that the vector loop gives a token: \<open>-1\<close> for \<open>-1\<close> and \<open>'-'\<close>, \<open>1\<close> for
  \<open>1\<close> and \<open>'+'\<close>, \<open>0\<close> for \<open>0\<close>, \<open>''\<close> and \<open>'0'\<close>; no sign for any other value.
\<close>

definition token_sign :: "pyval \<Rightarrow> int option" where
  "token_sign j =
     (if j = PInt (- 1) \<or> j = PStr ''-'' then Some (- 1)
      else if j = PInt 1 \<or> j = PStr ''+'' then Some 1
      else if j = PInt 0 \<or> j = PStr '''' \<or> j = PStr ''0'' then Some 0
      else None)"

text \<open>
  The labels of the ground set \<open>g\<close>, from position \<open>i\<close> on, whose token in \<open>js\<close> has the
  sign \<open>s\<close>.
\<close>

definition labels_with :: "pyval list \<Rightarrow> nat \<Rightarrow> pyval list \<Rightarrow> int \<Rightarrow> pyval set" where
  "labels_with g i js s = {g ! (i + k) |k. k < length js \<and> token_sign (js ! k) = Some s}"

text \<open>
  The sign that the loop of \<open>composition\<close> gives a label: the sign in the first subset
  unless that is zero, then the sign in the second.
\<close>

definition composed_sign :: "sse \<Rightarrow> sse \<Rightarrow> pyval \<Rightarrow> int" where
  "composed_sign X Y e =
     (if e \<in> positives X then 1
      else if e \<in> negatives X then - 1
      else if e \<in> positives Y then 1
      else if e \<in> negatives Y then - 1
      else 0)"

section \<open>Examples\<close>

text \<open>
  An iteration order for the examples: the members of a set in the order of a list
  that holds them.
\<close>

definition listed_order :: "pyval list \<Rightarrow> pyval set \<Rightarrow> pyval list" where
  "listed_order g S = filter (\<lambda>x. x \<in> S) (remdups g)"

text \<open>The ground set \<open>['e']\<close> and the signed subsets \<open>(1,)\<close>, \<open>(-1,)\<close>, \<open>(0,)\<close> over it.\<close>

definition E1 :: "pyval list" where
  "E1 = [PStr ''e'']"

definition X_plus :: sse where
  "X_plus = \<lparr>parent = Parent_new, positives = {PStr ''e''}, negatives = {}, zeroes = {}, groundset = E1\<rparr>"

definition X_minus :: sse where
  "X_minus = \<lparr>parent = Parent_new, positives = {}, negatives = {PStr ''e''}, zeroes = {}, groundset = E1\<rparr>"

definition X_zero :: sse where
  "X_zero = \<lparr>parent = Parent_new, positives = {}, negatives = {}, zeroes = {PStr ''e''}, groundset = E1\<rparr>"

text \<open>The pair \<open>((1,), (1,))\<close> over the ground set \<open>[1]\<close>: the label is positive and negative.\<close>

definition X_both :: sse where
  "X_both = \<lparr>parent = Parent_new, positives = {PInt 1}, negatives = {PInt 1}, zeroes = {}, groundset = [PInt 1]\<rparr>"

text \<open>The tuple \<open>('x', '+')\<close> read as a pair of label collections.\<close>

definition X_xplus :: sse where
  "X_xplus = \<lparr>parent = Parent_new, positives = {PStr ''x''}, negatives = {PStr ''+''}, zeroes = {},
     groundset = [PStr ''x'', PStr ''+'']\<rparr>"

text \<open>
  The covectors \<open>(1,)\<close>, \<open>(-1,)\<close>, \<open>(0,)\<close> of a covector system over \<open>['e']\<close>, the system
  of the three, the system of the first two (it has no zero covector) and the system
  with no covector at all.
\<close>

definition A_plus :: sse where
  "A_plus = \<lparr>parent = matroid_parent (Some E1), positives = {PStr ''e''}, negatives = {}, zeroes = {},
     groundset = E1\<rparr>"

definition A_minus :: sse where
  "A_minus = \<lparr>parent = matroid_parent (Some E1), positives = {}, negatives = {PStr ''e''}, zeroes = {},
     groundset = E1\<rparr>"

definition A_zero :: sse where
  "A_zero = \<lparr>parent = matroid_parent (Some E1), positives = {}, negatives = {}, zeroes = {PStr ''e''},
     groundset = E1\<rparr>"

definition system_A :: covector_matroid where
  "system_A = \<lparr>covectors = [A_plus, A_minus, A_zero], matroid_groundset = E1\<rparr>"

definition system_pm :: covector_matroid where
  "system_pm = \<lparr>covectors = [A_plus, A_minus], matroid_groundset = E1\<rparr>"

definition system_empty :: covector_matroid where
  "system_empty = \<lparr>covectors = [], matroid_groundset = E1\<rparr>"

section \<open>Construction of the examples\<close>

lemma and_then_Inr_iff:
  "(and_then m f = Inr y) = (\<exists>x. m = Inr x \<and> f x = Inr y)"
  by (cases m) simp_all

lemma X_plus_constructed:
  "SignedSubsetElement (listed_order E1) (OParent Parent_new) (OTuple [PInt 1]) (Some E1) None None None
     = Inr X_plus"
  by (simp add: SignedSubsetElement_def Element_init_def effective_groundset_def parent_is_data_def
      init_sets_def tuple_sets_def sign_tokens_def init_ground_def X_plus_def E1_def)

lemma X_minus_constructed:
  "SignedSubsetElement (listed_order E1) (OParent Parent_new) (OTuple [PInt (- 1)]) (Some E1) None None None
     = Inr X_minus"
  by (simp add: SignedSubsetElement_def Element_init_def effective_groundset_def parent_is_data_def
      init_sets_def tuple_sets_def sign_tokens_def init_ground_def X_minus_def E1_def)

lemma X_zero_constructed:
  "SignedSubsetElement (listed_order E1) (OParent Parent_new) (OTuple [PInt 0]) (Some E1) None None None
     = Inr X_zero"
  by (simp add: SignedSubsetElement_def Element_init_def effective_groundset_def parent_is_data_def
      init_sets_def tuple_sets_def sign_tokens_def init_ground_def X_zero_def E1_def)

section \<open>Conformality and restriction\<close>

lemma is_conformal_with_iff:
  "finite (separation_set X Y) \<Longrightarrow> is_conformal_with X Y = (separation_set X Y = {})"
  by (simp add: is_conformal_with_def)

text \<open>
  C3, as stated: conformality, an empty separation set and the two inclusions are
  equivalent. The signed subsets \<open>(1,)\<close> and \<open>(0,)\<close> over \<open>['e']\<close> are conformal, with an
  empty separation set, and the first is not a restriction of the second.
\<close>

theorem conformal_not_restriction_counterexample:
  "is_conformal_with X_plus X_zero \<and> separation_set X_plus X_zero = {}
     \<and> \<not> (positives X_plus \<subseteq> positives X_zero \<and> negatives X_plus \<subseteq> negatives X_zero)
     \<and> \<not> is_restriction_of X_plus X_zero"
  by (simp add: is_conformal_with_def separation_set_def is_restriction_of_def X_plus_def X_zero_def)

text \<open>
  C3, amended: for signed subsets with finitely many signed labels, conformality is the
  emptiness of the separation set, and it follows from the two inclusions when no label
  of the second subset is both positive and negative.
\<close>

theorem conformal_iff_separation_empty:
  assumes "finite (positives X)" and "finite (negatives X)"
  shows "is_conformal_with X Y = (separation_set X Y = {})
    \<and> (is_restriction_of X Y \<and> positives Y \<inter> negatives Y = {} \<longrightarrow> is_conformal_with X Y)"
proof -
  have fin: "finite (separation_set X Y)"
    using assms by (simp add: separation_set_def)
  have "separation_set X Y = {}"
    if "is_restriction_of X Y" and "positives Y \<inter> negatives Y = {}"
    using that unfolding separation_set_def is_restriction_of_def by blast
  then show ?thesis
    using fin by (simp add: is_conformal_with_def)
qed

theorem conformal_iff_separation_empty_witness:
  "finite (positives X_zero) \<and> finite (negatives X_zero)
     \<and> is_restriction_of X_zero X_plus \<and> positives X_plus \<inter> negatives X_plus = {}
     \<and> is_conformal_with X_zero X_plus \<and> separation_set X_zero X_plus = {}"
proof -
  have f: "finite (positives X_zero)" "finite (negatives X_zero)"
    by (simp_all add: X_zero_def)
  have r: "is_restriction_of X_zero X_plus \<and> positives X_plus \<inter> negatives X_plus = {}"
    by (simp add: is_restriction_of_def X_zero_def X_plus_def)
  from conformal_iff_separation_empty [OF f, of X_plus] r
  show ?thesis using f by blast
qed

section \<open>The vector loop\<close>

lemma labels_with_Nil: "labels_with g i [] s = {}"
  by (simp add: labels_with_def)

lemma labels_with_Cons:
  "labels_with g i (j # js) s =
     (if token_sign j = Some s then {g ! i} else {}) \<union> labels_with g (Suc i) js s"
proof -
  have "\<And>x. (\<exists>k. x = g ! (i + k) \<and> k < Suc (length js) \<and> token_sign ((j # js) ! k) = Some s)
      = ((x = g ! i \<and> token_sign j = Some s)
           \<or> (\<exists>k. x = g ! (Suc i + k) \<and> k < length js \<and> token_sign (js ! k) = Some s))"
  proof -
    fix x
    show "(\<exists>k. x = g ! (i + k) \<and> k < Suc (length js) \<and> token_sign ((j # js) ! k) = Some s)
      = ((x = g ! i \<and> token_sign j = Some s)
           \<or> (\<exists>k. x = g ! (Suc i + k) \<and> k < length js \<and> token_sign (js ! k) = Some s))"
      (is "?L = ?R")
    proof
      assume ?L
      then obtain k where k: "x = g ! (i + k)" "k < Suc (length js)" "token_sign ((j # js) ! k) = Some s"
        by blast
      show ?R
      proof (cases k)
        case 0
        with k show ?thesis by simp
      next
        case (Suc m)
        with k have "x = g ! (Suc i + m) \<and> m < length js \<and> token_sign (js ! m) = Some s" by simp
        then show ?thesis by blast
      qed
    next
      assume ?R
      then show ?L
      proof
        assume "x = g ! i \<and> token_sign j = Some s"
        then have "x = g ! (i + 0) \<and> 0 < Suc (length js) \<and> token_sign ((j # js) ! 0) = Some s" by simp
        then show ?L by blast
      next
        assume "\<exists>k. x = g ! (Suc i + k) \<and> k < length js \<and> token_sign (js ! k) = Some s"
        then obtain k where "x = g ! (Suc i + k)" "k < length js" "token_sign (js ! k) = Some s" by blast
        then have "x = g ! (i + Suc k) \<and> Suc k < Suc (length js) \<and> token_sign ((j # js) ! Suc k) = Some s"
          by simp
        then show ?L by blast
      qed
    qed
  qed
  then show ?thesis
    by (auto simp: labels_with_def)
qed

lemma vector_loop_result:
  "list_all (\<lambda>j. token_sign j \<noteq> None) js \<Longrightarrow>
   vector_loop (Some g) i js (P, N, Z) =
     Inr (P \<union> labels_with g i js 1, N \<union> labels_with g i js (- 1), Z \<union> labels_with g i js 0)"
proof (induction js arbitrary: i P N Z)
  case Nil
  then show ?case by (simp add: labels_with_Nil)
next
  case (Cons j js)
  from Cons.prems have rest: "list_all (\<lambda>j. token_sign j \<noteq> None) js" and j: "token_sign j \<noteq> None"
    by simp_all
  note IH = Cons.IH [OF rest]
  from j show ?case
    by (auto simp: IH labels_with_Cons token_sign_def Let_def split: if_splits)
qed

lemma vector_loop_error:
  "\<not> list_all (\<lambda>j. token_sign j \<noteq> None) js \<Longrightarrow>
   vector_loop gs i js (P, N, Z) = Inl (ValueError ''Must be tuple of -1, 0, 1'')"
proof (induction js arbitrary: i P N Z)
  case Nil
  then show ?case by simp
next
  case (Cons j js)
  show ?case
  proof (cases "token_sign j = None")
    case True
    then show ?thesis by (auto simp: token_sign_def Let_def split: if_splits)
  next
    case False
    with Cons.prems have "\<not> list_all (\<lambda>j. token_sign j \<noteq> None) js" by simp
    from Cons.IH [OF this] False show ?thesis
      by (auto simp: token_sign_def Let_def split: if_splits)
  qed
qed


section \<open>What the constructor establishes\<close>

lemma is_none_iff: "is_none x = (x = ONone)"
  by (cases x) simp_all

lemma init_ground_Some_iff:
  "(init_ground set_order (Some g) P N Z = Inr g') = (g' = g \<and> P \<union> N \<union> Z = set g)"
  by (auto simp: init_ground_def)

lemma Element_init_Inr_iff:
  "(Element_init par sets g = Inr X) =
     (\<exists>Pa. par = OParent Pa
        \<and> X = \<lparr>parent = Pa, positives = fst sets, negatives = fst (snd sets), zeroes = snd (snd sets),
                 groundset = g\<rparr>)"
  by (cases par) (auto simp: Element_init_def)

lemma SignedSubsetElement_Inr_iff:
  "(SignedSubsetElement set_order par data gsarg poss negs zers = Inr X) =
     (\<exists>P N Z g Pa.
        init_sets (if parent_is_data par data (effective_groundset par gsarg) poss then par else data)
          (effective_groundset par gsarg) poss negs zers = Inr (P, N, Z)
        \<and> init_ground set_order (effective_groundset par gsarg) P N Z = Inr g
        \<and> (if parent_is_data par data (effective_groundset par gsarg) poss then OParent Parent_new else par) = OParent Pa
        \<and> X = \<lparr>parent = Pa, positives = P, negatives = N, zeroes = Z, groundset = g\<rparr>)"
  unfolding SignedSubsetElement_def Let_def
  by (simp only: and_then_Inr_iff Element_init_Inr_iff) force

lemma constructed_partition:
  assumes "SignedSubsetElement set_order par data gsarg poss negs zers = Inr X"
    and "effective_groundset par gsarg = Some g"
  shows "groundset X = g \<and> positives X \<union> negatives X \<union> zeroes X = set g"
proof -
  from assms(1) obtain P N Z g' where
    g: "init_ground set_order (effective_groundset par gsarg) P N Z = Inr g'"
    and X: "positives X = P" "negatives X = N" "zeroes X = Z" "groundset X = g'"
    unfolding SignedSubsetElement_Inr_iff by auto
  from g assms(2) have "g' = g \<and> P \<union> N \<union> Z = set g"
    by (simp add: init_ground_Some_iff)
  with X show ?thesis by simp
qed

lemma call_cases:
  "e \<in> positives X \<union> negatives X \<union> zeroes X \<Longrightarrow>
     call X e = Inr 1 \<or> call X e = Inr (- 1) \<or> call X e = Inr 0"
  by (auto simp: call_def)

lemma token_sign_tokens: "(token_sign j \<noteq> None) = (j \<in> set sign_tokens)"
  by (auto simp: token_sign_def sign_tokens_def)

lemma labels_with_disjoint:
  assumes "distinct g" and "length js \<le> length g" and "s \<noteq> t"
  shows "labels_with g 0 js s \<inter> labels_with g 0 js t = {}"
proof -
  have False if "x \<in> labels_with g 0 js s" and "x \<in> labels_with g 0 js t" for x
  proof -
    from that(1) obtain k where k: "x = g ! k" "k < length js" "token_sign (js ! k) = Some s"
      by (auto simp: labels_with_def)
    from that(2) obtain k' where k': "x = g ! k'" "k' < length js" "token_sign (js ! k') = Some t"
      by (auto simp: labels_with_def)
    from k k' assms(2) have "k < length g" "k' < length g" "g ! k = g ! k'" by simp_all
    with assms(1) have "k = k'" by (simp add: nth_eq_iff_index_eq)
    with k k' assms(3) show False by simp
  qed
  then show ?thesis by blast
qed

lemma tuple_sets_vector:
  assumes "xs \<noteq> []" and "hd xs \<in> set sign_tokens" and "tuple_sets xs (Some g) = Inr (P, N, Z)"
  shows "length xs = length g \<and> list_all (\<lambda>j. token_sign j \<noteq> None) xs
     \<and> P = labels_with g 0 xs 1 \<and> N = labels_with g 0 xs (- 1) \<and> Z = labels_with g 0 xs 0"
proof -
  from assms(1) obtain x0 rest where xs: "xs = x0 # rest" by (cases xs) auto
  with assms(2) have x0: "x0 \<in> set sign_tokens" by simp
  from assms(3) xs x0 have len: "length xs = length g"
    and loop: "vector_loop (Some g) 0 xs ({}, {}, {}) = Inr (P, N, Z)"
    by (auto simp: tuple_sets_def split: if_splits)
  have all: "list_all (\<lambda>j. token_sign j \<noteq> None) xs"
  proof (rule ccontr)
    assume "\<not> list_all (\<lambda>j. token_sign j \<noteq> None) xs"
    from vector_loop_error [OF this, of "Some g" 0 "{}" "{}" "{}"] loop show False by simp
  qed
  from vector_loop_result [OF all, of g 0 "{}" "{}" "{}"] loop len all show ?thesis by simp
qed

text \<open>
  C4, amended: for every signed subset that the constructor accepts when a ground set is
  known (given as the argument or by the parent), the sign of every label of the ground
  set is one of \<open>1\<close>, \<open>-1\<close>, \<open>0\<close>, the label is in at least one of the three sets, and
  the union of the three sets is the ground set. The three sets are pairwise disjoint
  when the input is a ternary vector and the ground set has no repeated label.
\<close>

theorem constructed_signs_total:
  assumes "SignedSubsetElement set_order par data gsarg poss negs zers = Inr X"
    and "effective_groundset par gsarg = Some g"
    and "e \<in> set g"
  shows "(call X e = Inr 1 \<or> call X e = Inr (- 1) \<or> call X e = Inr 0)
     \<and> (e \<in> positives X \<or> e \<in> negatives X \<or> e \<in> zeroes X)
     \<and> positives X \<union> negatives X \<union> zeroes X = set g
     \<and> (poss = None \<and> (\<exists>xs. data = OTuple xs \<and> xs \<noteq> [] \<and> hd xs \<in> set sign_tokens) \<and> distinct g \<longrightarrow>
          positives X \<inter> negatives X = {} \<and> positives X \<inter> zeroes X = {} \<and> negatives X \<inter> zeroes X = {})"
proof -
  from constructed_partition [OF assms(1,2)]
  have part: "positives X \<union> negatives X \<union> zeroes X = set g" by simp
  with assms(3) have mem: "e \<in> positives X \<union> negatives X \<union> zeroes X" by simp
  have disj: "positives X \<inter> negatives X = {} \<and> positives X \<inter> zeroes X = {} \<and> negatives X \<inter> zeroes X = {}"
    if "poss = None" and "data = OTuple xs" and ne: "xs \<noteq> []" and hd: "hd xs \<in> set sign_tokens"
      and dist: "distinct g" for xs
  proof -
    from assms(1) obtain P N Z where
      sets: "init_sets (if parent_is_data par data (Some g) poss then par else data) (Some g) poss negs zers = Inr (P, N, Z)"
      and X: "positives X = P" "negatives X = N" "zeroes X = Z"
      unfolding SignedSubsetElement_Inr_iff assms(2) by auto
    have "\<not> parent_is_data par data (Some g) poss"
      using sets that(1,2) by (auto simp: parent_is_data_def init_sets_def is_none_iff)
    with sets that have "tuple_sets xs (Some g) = Inr (P, N, Z)"
      by (simp add: init_sets_def)
    from tuple_sets_vector [OF ne hd this]
    have len: "length xs \<le> length g" and P: "P = labels_with g 0 xs 1"
      and N: "N = labels_with g 0 xs (- 1)" and Z: "Z = labels_with g 0 xs 0" by simp_all
    show ?thesis
      unfolding X P N Z
      using labels_with_disjoint [OF dist len, of 1 "- 1"]
        labels_with_disjoint [OF dist len, of 1 0]
        labels_with_disjoint [OF dist len, of "- 1" 0]
      by simp
  qed
  from call_cases [OF mem] mem part disj show ?thesis by blast
qed

theorem constructed_signs_total_witness:
  "SignedSubsetElement (listed_order E1) (OParent Parent_new) (OTuple [PInt 1]) (Some E1) None None None
      = Inr X_plus
    \<and> effective_groundset (OParent Parent_new) (Some E1) = Some E1
    \<and> PStr ''e'' \<in> set E1 \<and> distinct E1 \<and> hd [PInt 1] \<in> set sign_tokens
    \<and> call X_plus (PStr ''e'') = Inr 1
    \<and> positives X_plus \<union> negatives X_plus \<union> zeroes X_plus = set E1
    \<and> positives X_plus \<inter> negatives X_plus = {} \<and> positives X_plus \<inter> zeroes X_plus = {}
    \<and> negatives X_plus \<inter> zeroes X_plus = {}"
proof -
  have gs: "effective_groundset (OParent Parent_new) (Some E1) = Some E1"
    by (simp add: effective_groundset_def)
  have e: "PStr ''e'' \<in> set E1"
    by (simp add: E1_def)
  have more: "distinct E1 \<and> hd [PInt 1] \<in> set sign_tokens \<and> call X_plus (PStr ''e'') = Inr 1"
    by (simp add: E1_def sign_tokens_def call_def X_plus_def)
  from constructed_signs_total [OF X_plus_constructed gs e] X_plus_constructed gs e more
  show ?thesis by simp
qed

text \<open>
  C4, as stated, fails: the constructor accepts the pair \<open>((1,), (1,))\<close> over the ground
  set \<open>[1]\<close>, and the label \<open>1\<close> is then both positive and negative.
\<close>

theorem overlapping_signs_counterexample:
  "SignedSubsetElement (listed_order [PInt 1]) (OParent Parent_new)
      (OTuple [PTuple [PInt 1], PTuple [PInt 1]]) (Some [PInt 1]) None None None = Inr X_both
    \<and> PInt 1 \<in> set (groundset X_both)
    \<and> PInt 1 \<in> positives X_both \<and> PInt 1 \<in> negatives X_both
    \<and> positives X_both \<inter> negatives X_both \<noteq> {}"
  by (simp add: SignedSubsetElement_def Element_init_def effective_groundset_def parent_is_data_def
      init_sets_def tuple_sets_def sign_tokens_def init_ground_def X_both_def)

section \<open>Ternary vectors: round trip and rejected tokens\<close>

lemma token_sign_range: "token_sign j = Some s \<Longrightarrow> s = 1 \<or> s = - 1 \<or> s = 0"
  by (auto simp: token_sign_def split: if_splits)

lemma token_sign_Some_iff: "(\<exists>y. token_sign j = Some y) = (j \<in> set sign_tokens)"
  using token_sign_tokens [of j] by auto

lemma tuple_sets_vector_format:
  "xs \<noteq> [] \<Longrightarrow> hd xs \<in> set sign_tokens \<Longrightarrow>
   tuple_sets xs gs =
     (case gs of
        Some g \<Rightarrow>
          if length xs \<noteq> length g
          then Inl (ValueError ''Length of vector must be same number of elements as ground set'')
          else vector_loop gs 0 xs ({}, {}, {})
      | None \<Rightarrow> vector_loop gs 0 xs ({}, {}, {}))"
  by (cases xs) (auto simp add: tuple_sets_def simp del: vector_loop.simps split: option.splits)

lemma for_each_nth:
  "length zs = length ys \<Longrightarrow> (\<And>k. k < length ys \<Longrightarrow> f (ys ! k) = Inr (zs ! k)) \<Longrightarrow>
     for_each f ys = Inr zs"
proof (induction ys arbitrary: zs)
  case Nil
  then show ?case by simp
next
  case (Cons y ys)
  from Cons.prems(1) obtain z zs' where zs: "zs = z # zs'" and len: "length zs' = length ys"
    by (cases zs) auto
  from Cons.prems(2) [of 0] zs have hd: "f y = Inr z" by simp
  have "for_each f ys = Inr zs'"
  proof (rule Cons.IH [OF len])
    fix k assume "k < length ys"
    with Cons.prems(2) [of "Suc k"] zs show "f (ys ! k) = Inr (zs' ! k)" by simp
  qed
  with hd zs show ?case by simp
qed

lemma labels_with_member:
  "k < length js \<Longrightarrow> token_sign (js ! k) = Some s \<Longrightarrow> g ! k \<in> labels_with g 0 js s"
  by (auto simp: labels_with_def)

lemma labels_with_cover:
  assumes "list_all (\<lambda>j. token_sign j \<noteq> None) js" and "length js = length g"
  shows "labels_with g 0 js 1 \<union> labels_with g 0 js (- 1) \<union> labels_with g 0 js 0 = set g"
proof
  show "labels_with g 0 js 1 \<union> labels_with g 0 js (- 1) \<union> labels_with g 0 js 0 \<subseteq> set g"
    using assms(2) by (auto simp: labels_with_def)
  show "set g \<subseteq> labels_with g 0 js 1 \<union> labels_with g 0 js (- 1) \<union> labels_with g 0 js 0"
  proof
    fix x assume "x \<in> set g"
    then obtain k where k: "k < length g" "x = g ! k" by (auto simp: in_set_conv_nth)
    with assms have "token_sign (js ! k) \<noteq> None" by (simp add: list_all_length)
    then obtain s where s: "token_sign (js ! k) = Some s" by auto
    from labels_with_member [OF _ s, of g] k assms(2) have "x \<in> labels_with g 0 js s" by simp
    with token_sign_range [OF s]
    show "x \<in> labels_with g 0 js 1 \<union> labels_with g 0 js (- 1) \<union> labels_with g 0 js 0" by auto
  qed
qed

lemma vector_call:
  assumes dist: "distinct g" and len: "length js = length g" and k: "k < length g"
    and s: "token_sign (js ! k) = Some s"
    and X: "positives X = labels_with g 0 js 1" "negatives X = labels_with g 0 js (- 1)"
      "zeroes X = labels_with g 0 js 0"
  shows "call X (g ! k) = Inr s"
proof -
  have mem: "g ! k \<in> labels_with g 0 js s"
    using labels_with_member [OF _ s, of g] k len by simp
  have out: "g ! k \<notin> labels_with g 0 js t" if "t \<noteq> s" for t
    using labels_with_disjoint [OF dist, of js s t] len mem that by auto
  from token_sign_range [OF s] show ?thesis
  proof (elim disjE)
    assume "s = 1"
    with mem show ?thesis by (simp add: call_def X)
  next
    assume "s = - 1"
    with mem out [of 1] show ?thesis by (simp add: call_def X)
  next
    assume "s = 0"
    with mem out [of 1] out [of "- 1"] show ?thesis by (simp add: call_def X)
  qed
qed

lemma vector_constructed:
  assumes ne: "xs \<noteq> []" and all: "list_all (\<lambda>j. j \<in> set sign_tokens) xs"
    and gs: "effective_groundset (OParent Pa) gsarg = Some g"
    and len: "length xs = length g"
  shows "SignedSubsetElement set_order (OParent Pa) (OTuple xs) gsarg None negs zers =
     Inr \<lparr>parent = Pa, positives = labels_with g 0 xs 1, negatives = labels_with g 0 xs (- 1),
          zeroes = labels_with g 0 xs 0, groundset = g\<rparr>"
proof -
  from all have all': "list_all (\<lambda>j. token_sign j \<noteq> None) xs"
    by (simp add: token_sign_Some_iff)
  from ne all have hd: "hd xs \<in> set sign_tokens" by (cases xs) auto
  have "tuple_sets xs (Some g) = vector_loop (Some g) 0 xs ({}, {}, {})"
    using len by (simp add: tuple_sets_vector_format [OF ne hd])
  also have "\<dots> = Inr (labels_with g 0 xs 1, labels_with g 0 xs (- 1), labels_with g 0 xs 0)"
    using vector_loop_result [OF all', of g 0 "{}" "{}" "{}"] by simp
  finally have sets: "init_sets (OTuple xs) (Some g) None negs zers =
      Inr (labels_with g 0 xs 1, labels_with g 0 xs (- 1), labels_with g 0 xs 0)"
    by (simp add: init_sets_def)
  have ground: "init_ground set_order (Some g) (labels_with g 0 xs 1) (labels_with g 0 xs (- 1))
      (labels_with g 0 xs 0) = Inr g"
    using labels_with_cover [OF all' len] by (simp add: init_ground_Some_iff)
  have swap: "\<not> parent_is_data (OParent Pa) (OTuple xs) (Some g) None"
    by (simp add: parent_is_data_def)
  show ?thesis
    unfolding SignedSubsetElement_def Let_def gs
    using swap by (simp add: sets ground Element_init_def)
qed

text \<open>
  C6, amended: for every non-empty ternary vector of recognized tokens, given as \<open>data\<close>
  with a parent, whose length matches a known ground set without repeated labels, the
  construction succeeds and reading back the signs over the ground set in order gives
  the numeric sign of each token (\<open>1\<close> for \<open>1\<close> and \<open>'+'\<close>, \<open>-1\<close> for \<open>-1\<close> and \<open>'-'\<close>,
  \<open>0\<close> for \<open>0\<close>, \<open>'0'\<close> and \<open>''\<close>); a vector of the integers \<open>-1\<close>, \<open>0\<close>, \<open>1\<close> is
  reproduced.
\<close>

theorem vector_round_trip:
  assumes "xs \<noteq> []" and "list_all (\<lambda>j. j \<in> set sign_tokens) xs"
    and "effective_groundset (OParent Pa) gsarg = Some g"
    and "length xs = length g" and "distinct g"
  shows "\<exists>X. SignedSubsetElement set_order (OParent Pa) (OTuple xs) gsarg None negs zers = Inr X
     \<and> groundset X = g
     \<and> iter X = Inr (map (\<lambda>j. the (token_sign j)) xs)
     \<and> (list_all (\<lambda>j. j \<in> set [PInt (- 1), PInt 0, PInt 1]) xs \<longrightarrow>
          map PInt (map (\<lambda>j. the (token_sign j)) xs) = xs)"
proof -
  let ?X = "\<lparr>parent = Pa, positives = labels_with g 0 xs 1, negatives = labels_with g 0 xs (- 1),
          zeroes = labels_with g 0 xs 0, groundset = g\<rparr>"
  have built: "SignedSubsetElement set_order (OParent Pa) (OTuple xs) gsarg None negs zers = Inr ?X"
    by (rule vector_constructed [OF assms(1-4)])
  have "for_each (call ?X) g = Inr (map (\<lambda>j. the (token_sign j)) xs)"
  proof (rule for_each_nth)
    show "length (map (\<lambda>j. the (token_sign j)) xs) = length g" using assms(4) by simp
  next
    fix k assume k: "k < length g"
    with assms(2,4) have "token_sign (xs ! k) \<noteq> None"
      by (simp add: list_all_length token_sign_Some_iff)
    then obtain s where s: "token_sign (xs ! k) = Some s" by auto
    from vector_call [OF assms(5,4) k s, of ?X] k assms(4) s
    show "call ?X (g ! k) = Inr (map (\<lambda>j. the (token_sign j)) xs ! k)" by simp
  qed
  then have it: "iter ?X = Inr (map (\<lambda>j. the (token_sign j)) xs)"
    by (simp add: iter_def)
  have ints: "map PInt (map (\<lambda>j. the (token_sign j)) xs) = xs"
    if "list_all (\<lambda>j. j \<in> set [PInt (- 1), PInt 0, PInt 1]) xs"
  proof -
    have "PInt (the (token_sign j)) = j" if "j \<in> set xs" for j
    proof -
      from \<open>list_all (\<lambda>j. j \<in> set [PInt (- 1), PInt 0, PInt 1]) xs\<close> that
      have "j = PInt (- 1) \<or> j = PInt 0 \<or> j = PInt 1" by (auto simp: list_all_iff)
      then show ?thesis by (auto simp: token_sign_def)
    qed
    then show ?thesis by (simp add: map_idI)
  qed
  from built it ints show ?thesis by auto
qed

theorem vector_round_trip_witness:
  "[PInt 1] \<noteq> [] \<and> list_all (\<lambda>j. j \<in> set sign_tokens) [PInt 1]
   \<and> effective_groundset (OParent Parent_new) (Some E1) = Some E1
   \<and> length [PInt 1] = length E1 \<and> distinct E1
   \<and> list_all (\<lambda>j. j \<in> set [PInt (- 1), PInt 0, PInt 1]) [PInt 1]
   \<and> groundset X_plus = E1 \<and> iter X_plus = Inr [1] \<and> map PInt [1] = [PInt 1]"
proof -
  have h1: "[PInt 1] \<noteq> []" by simp
  have h2: "list_all (\<lambda>j. j \<in> set sign_tokens) [PInt 1]" by (simp add: sign_tokens_def)
  have h3: "effective_groundset (OParent Parent_new) (Some E1) = Some E1"
    by (simp add: effective_groundset_def)
  have h4: "length [PInt 1] = length E1" by (simp add: E1_def)
  have h5: "distinct E1" by (simp add: E1_def)
  from vector_round_trip [OF h1 h2 h3 h4 h5, of "listed_order E1" None None]
  obtain X where X: "SignedSubsetElement (listed_order E1) (OParent Parent_new) (OTuple [PInt 1]) (Some E1)
      None None None = Inr X"
    and g: "groundset X = E1" and it: "iter X = Inr (map (\<lambda>j. the (token_sign j)) [PInt 1])"
    by blast
  from X X_plus_constructed have "X = X_plus" by simp
  with g it have "groundset X_plus = E1 \<and> iter X_plus = Inr [1]"
    by (simp add: token_sign_def)
  with h1 h2 h3 h4 h5 show ?thesis by simp
qed

text \<open>
  C6, as stated, fails on string tokens: the vector \<open>('+',)\<close> over \<open>['e']\<close> is read back
  as \<open>[1]\<close>, which is not the original vector.
\<close>

theorem string_token_round_trip_counterexample:
  "list_all (\<lambda>j. j \<in> set sign_tokens) [PStr ''+''] \<and> length [PStr ''+''] = length E1
   \<and> SignedSubsetElement (listed_order E1) (OParent Parent_new) (OTuple [PStr ''+'']) (Some E1) None None None
       = Inr X_plus
   \<and> iter X_plus = Inr [1]
   \<and> map PInt [1] \<noteq> [PStr ''+'']"
  by (simp add: SignedSubsetElement_def Element_init_def effective_groundset_def parent_is_data_def
      init_sets_def tuple_sets_def sign_tokens_def init_ground_def X_plus_def E1_def iter_def call_def)

text \<open>
  C7, amended: a tuple whose first entry is a recognized token, and whose length matches
  the ground set when one is known, is rejected with \<open>ValueError\<close> as soon as one of its
  entries is not a recognized token, whether it is given as \<open>data\<close> with a parent or as
  the only argument. (A tuple whose first entry is not a recognized token is read as
  the pair or triple of label collections.)
\<close>

theorem unrecognised_token_rejected:
  assumes "xs \<noteq> []" and "hd xs \<in> set sign_tokens" and "\<not> list_all (\<lambda>j. j \<in> set sign_tokens) xs"
    and "case effective_groundset (OParent Pa) gsarg of None \<Rightarrow> True | Some g \<Rightarrow> length xs = length g"
  shows "SignedSubsetElement set_order (OParent Pa) (OTuple xs) gsarg None negs zers
        = Inl (ValueError ''Must be tuple of -1, 0, 1'')
     \<and> SignedSubsetElement set_order (OTuple xs) ONone None None negs zers
        = Inl (ValueError ''Must be tuple of -1, 0, 1'')"
proof -
  from assms(3) have bad: "\<not> list_all (\<lambda>j. token_sign j \<noteq> None) xs"
    by (simp add: token_sign_Some_iff)
  have loop: "vector_loop gs 0 xs ({}, {}, {}) = Inl (ValueError ''Must be tuple of -1, 0, 1'')" for gs
    by (rule vector_loop_error [OF bad])
  have t: "tuple_sets xs gs = Inl (ValueError ''Must be tuple of -1, 0, 1'')"
    if "case gs of None \<Rightarrow> True | Some g \<Rightarrow> length xs = length g" for gs
    using that loop by (auto simp add: tuple_sets_vector_format [OF assms(1,2)] split: option.splits)
  have a: "SignedSubsetElement set_order (OParent Pa) (OTuple xs) gsarg None negs zers
        = Inl (ValueError ''Must be tuple of -1, 0, 1'')"
    unfolding SignedSubsetElement_def Let_def
    using t [OF assms(4)] by (simp add: parent_is_data_def init_sets_def)
  have b: "SignedSubsetElement set_order (OTuple xs) ONone None None negs zers
        = Inl (ValueError ''Must be tuple of -1, 0, 1'')"
    unfolding SignedSubsetElement_def Let_def
    using t [of None] by (simp add: parent_is_data_def init_sets_def effective_groundset_def)
  from a b show ?thesis by simp
qed

theorem unrecognised_token_rejected_witness:
  "[PInt 1, PInt 2] \<noteq> [] \<and> hd [PInt 1, PInt 2] \<in> set sign_tokens
   \<and> \<not> list_all (\<lambda>j. j \<in> set sign_tokens) [PInt 1, PInt 2]
   \<and> effective_groundset (OParent Parent_new) None = None
   \<and> SignedSubsetElement (listed_order []) (OParent Parent_new) (OTuple [PInt 1, PInt 2]) None None None None
        = Inl (ValueError ''Must be tuple of -1, 0, 1'')
   \<and> SignedSubsetElement (listed_order []) (OTuple [PInt 1, PInt 2]) ONone None None None None
        = Inl (ValueError ''Must be tuple of -1, 0, 1'')"
proof -
  have h1: "[PInt 1, PInt 2] \<noteq> []" by simp
  have h2: "hd [PInt 1, PInt 2] \<in> set sign_tokens" by (simp add: sign_tokens_def)
  have h3: "\<not> list_all (\<lambda>j. j \<in> set sign_tokens) [PInt 1, PInt 2]" by (simp add: sign_tokens_def)
  have gs: "effective_groundset (OParent Parent_new) None = None"
    by (simp add: effective_groundset_def Parent_new_def)
  then have h4: "case effective_groundset (OParent Parent_new) None of None \<Rightarrow> True
      | Some g \<Rightarrow> length [PInt 1, PInt 2] = length g"
    by simp
  from unrecognised_token_rejected [OF h1 h2 h3 h4, of "listed_order []" None None] h1 h2 h3 gs
  show ?thesis by simp
qed

text \<open>
  C7, as stated, fails when the unrecognized token comes first: the tuple \<open>('x', '+')\<close>
  is accepted, read as the positives \<open>{'x'}\<close> and the negatives \<open>{'+'}\<close>.
\<close>

theorem reinterpreted_tuple_counterexample:
  "PStr ''x'' \<notin> set sign_tokens
   \<and> SignedSubsetElement (listed_order [PStr ''x'', PStr ''+'']) (OTuple [PStr ''x'', PStr ''+'']) ONone
        None None None None = Inr X_xplus"
  by (simp add: SignedSubsetElement_def Element_init_def effective_groundset_def parent_is_data_def
      init_sets_def tuple_sets_def sign_tokens_def init_ground_def X_xplus_def listed_order_def
      Parent_new_def)

section \<open>Composition and reorientation\<close>

lemma composition_loop_result:
  assumes "set es \<subseteq> positives X \<union> negatives X \<union> zeroes X"
    and "set es \<subseteq> positives Y \<union> negatives Y \<union> zeroes Y"
  shows "composition_loop X Y es (p, n, z) =
     Inr (p @ filter (\<lambda>e. composed_sign X Y e = 1) es,
          n @ filter (\<lambda>e. composed_sign X Y e = - 1) es,
          z @ filter (\<lambda>e. composed_sign X Y e = 0) es)"
  using assms
proof (induction es arbitrary: p n z)
  case Nil
  then show ?case by simp
next
  case (Cons e es)
  from Cons.prems have rest: "set es \<subseteq> positives X \<union> negatives X \<union> zeroes X"
    "set es \<subseteq> positives Y \<union> negatives Y \<union> zeroes Y"
    and eX: "e \<in> positives X \<union> negatives X \<union> zeroes X"
    and eY: "e \<in> positives Y \<union> negatives Y \<union> zeroes Y"
    by simp_all
  note IH = Cons.IH [OF rest]
  consider (px) "e \<in> positives X"
    | (nx) "e \<notin> positives X" "e \<in> negatives X"
    | (py) "e \<notin> positives X" "e \<notin> negatives X" "e \<in> positives Y"
    | (ny) "e \<notin> positives X" "e \<notin> negatives X" "e \<notin> positives Y" "e \<in> negatives Y"
    | (zz) "e \<notin> positives X" "e \<notin> negatives X" "e \<notin> positives Y" "e \<notin> negatives Y"
    by blast
  then show ?case
  proof cases
    case px
    then show ?thesis by (simp add: call_def composed_sign_def IH)
  next
    case nx
    then show ?thesis by (simp add: call_def composed_sign_def IH)
  next
    case py
    with eX show ?thesis by (simp add: call_def composed_sign_def IH)
  next
    case ny
    with eX show ?thesis by (simp add: call_def composed_sign_def IH)
  next
    case zz
    with eX eY show ?thesis by (simp add: call_def composed_sign_def IH)
  qed
qed

lemma keyword_constructed:
  assumes "py_set cp = Inr P" and "py_set cn = Inr N" and "py_set cz = Inr Z"
    and "case effective_groundset (OParent Pa) gsarg of None \<Rightarrow> True | Some g \<Rightarrow> P \<union> N \<union> Z = set g"
  shows "SignedSubsetElement set_order (OParent Pa) ONone gsarg (Some cp) (Some cn) (Some cz) =
     Inr \<lparr>parent = Pa, positives = P, negatives = N, zeroes = Z,
          groundset = (case effective_groundset (OParent Pa) gsarg of
                         None \<Rightarrow> set_order (P \<union> N \<union> Z) | Some g \<Rightarrow> g)\<rparr>"
proof -
  have sets: "init_sets ONone gs (Some cp) (Some cn) (Some cz) = Inr (P, N, Z)" for gs
    using assms(1-3) by (simp add: init_sets_def keyword_sets_def)
  have swap: "\<not> parent_is_data (OParent Pa) ONone gs (Some cp)" for gs
    by (simp add: parent_is_data_def)
  show ?thesis
  proof (cases "effective_groundset (OParent Pa) gsarg")
    case None
    then show ?thesis
      unfolding SignedSubsetElement_def Let_def
      by (simp add: swap sets init_ground_def Element_init_def)
  next
    case (Some g)
    with assms(4) have "P \<union> N \<union> Z = set g" by simp
    then have "init_ground set_order (Some g) P N Z = Inr g"
      by (simp add: init_ground_Some_iff)
    with Some show ?thesis
      unfolding SignedSubsetElement_def Let_def
      by (simp add: swap sets Element_init_def)
  qed
qed

lemma keyword_constructed_default_zeroes:
  assumes "P \<union> N \<subseteq> set g"
  shows "SignedSubsetElement set_order (OParent Pa) ONone (Some g) (Some (Elements P)) (Some (Elements N)) None =
     Inr \<lparr>parent = Pa, positives = P, negatives = N, zeroes = set g - P - N, groundset = g\<rparr>"
proof -
  have sets: "init_sets ONone (Some g) (Some (Elements P)) (Some (Elements N)) None = Inr (P, N, set g - P - N)"
    by (simp add: init_sets_def keyword_sets_def)
  have swap: "\<not> parent_is_data (OParent Pa) ONone (Some g) (Some (Elements P))"
    by (simp add: parent_is_data_def)
  have "P \<union> N \<union> (set g - P - N) = set g" using assms by blast
  then have "init_ground set_order (Some g) P N (set g - P - N) = Inr g"
    by (simp add: init_ground_Some_iff)
  then show ?thesis
    unfolding SignedSubsetElement_def Let_def
    by (simp add: swap sets Element_init_def effective_groundset_def)
qed

lemma composed_sign_partition:
  "{e \<in> S. composed_sign X Y e = 1} \<union> {e \<in> S. composed_sign X Y e = - 1}
     \<union> {e \<in> S. composed_sign X Y e = 0} = S"
  by (auto simp: composed_sign_def)

lemma composition_result:
  assumes "positives X \<union> negatives X \<union> zeroes X = set (groundset X)"
    and "set (groundset X) \<subseteq> positives Y \<union> negatives Y \<union> zeroes Y"
    and "case parent_groundset (parent X) of None \<Rightarrow> True | Some pg \<Rightarrow> set pg = set (groundset X)"
  shows "composition set_order X Y =
     Inr \<lparr>parent = parent X,
          positives = {e \<in> set (groundset X). composed_sign X Y e = 1},
          negatives = {e \<in> set (groundset X). composed_sign X Y e = - 1},
          zeroes = {e \<in> set (groundset X). composed_sign X Y e = 0},
          groundset = (case parent_groundset (parent X) of
                         None \<Rightarrow> set_order (set (groundset X)) | Some pg \<Rightarrow> pg)\<rparr>"
proof -
  let ?g = "groundset X"
  let ?p = "filter (\<lambda>e. composed_sign X Y e = 1) ?g"
  let ?n = "filter (\<lambda>e. composed_sign X Y e = - 1) ?g"
  let ?z = "filter (\<lambda>e. composed_sign X Y e = 0) ?g"
  have loop: "composition_loop X Y ?g ([], [], []) = Inr (?p, ?n, ?z)"
    using composition_loop_result [of ?g X Y "[]" "[]" "[]"] assms(1,2) by simp
  have eg: "effective_groundset (OParent (parent X)) None = parent_groundset (parent X)"
    by (simp add: effective_groundset_def)
  have cover: "set ?p \<union> set ?n \<union> set ?z = set ?g"
    using composed_sign_partition [of "set ?g" X Y] by simp
  have cond: "case effective_groundset (OParent (parent X)) None of None \<Rightarrow> True
      | Some g \<Rightarrow> set ?p \<union> set ?n \<union> set ?z = set g"
    using assms(3) unfolding eg cover by (simp split: option.splits)
  have "composition set_order X Y =
      SignedSubsetElement set_order (OParent (parent X)) ONone None
        (Some (Val (PTuple ?p))) (Some (Val (PTuple ?n))) (Some (Val (PTuple ?z)))"
    by (simp add: composition_def loop)
  also have "\<dots> = Inr \<lparr>parent = parent X, positives = set ?p, negatives = set ?n, zeroes = set ?z,
      groundset = (case effective_groundset (OParent (parent X)) None of
                     None \<Rightarrow> set_order (set ?p \<union> set ?n \<union> set ?z) | Some g \<Rightarrow> g)\<rparr>"
    by (rule keyword_constructed [OF _ _ _ cond]) simp_all
  finally show ?thesis
    unfolding eg cover by simp
qed

text \<open>
  C8: for signed subsets \<open>X\<close>, \<open>Y\<close> over the same ground set \<open>E\<close> (each has a sign for
  every label of \<open>E\<close>, and the parent's ground set, when the parent has one, has the
  labels of \<open>E\<close>), the composition is a signed subset with the sign \<open>X(e)\<close> at every
  \<open>e\<close> of \<open>E\<close> where \<open>X(e)\<close> is not zero and \<open>Y(e)\<close> where it is; it has the parent of
  \<open>X\<close> and its three sets cover \<open>E\<close>.
\<close>

theorem composition_signs:
  assumes "positives X \<union> negatives X \<union> zeroes X = set (groundset X)"
    and "positives Y \<union> negatives Y \<union> zeroes Y = set (groundset Y)"
    and "set (groundset Y) = set (groundset X)"
    and "case parent_groundset (parent X) of None \<Rightarrow> True | Some pg \<Rightarrow> set pg = set (groundset X)"
    and "e \<in> set (groundset X)"
  shows "\<exists>R. composition set_order X Y = Inr R
     \<and> call R e = (if call X e = Inr 0 then call Y e else call X e)
     \<and> parent R = parent X
     \<and> positives R \<union> negatives R \<union> zeroes R = set (groundset X)
     \<and> groundset R = (case parent_groundset (parent X) of
                        None \<Rightarrow> set_order (set (groundset X)) | Some pg \<Rightarrow> pg)"
proof -
  let ?R = "\<lparr>parent = parent X,
          positives = {e \<in> set (groundset X). composed_sign X Y e = 1},
          negatives = {e \<in> set (groundset X). composed_sign X Y e = - 1},
          zeroes = {e \<in> set (groundset X). composed_sign X Y e = 0},
          groundset = (case parent_groundset (parent X) of
                         None \<Rightarrow> set_order (set (groundset X)) | Some pg \<Rightarrow> pg)\<rparr>"
  from assms(2,3) have Y: "set (groundset X) \<subseteq> positives Y \<union> negatives Y \<union> zeroes Y" by simp
  have built: "composition set_order X Y = Inr ?R"
    by (rule composition_result [OF assms(1) Y assms(4)])
  from assms(1,5) have eX: "e \<in> positives X \<union> negatives X \<union> zeroes X" by simp
  from Y assms(5) have eY: "e \<in> positives Y \<union> negatives Y \<union> zeroes Y" by blast
  have sign: "call ?R e = (if call X e = Inr 0 then call Y e else call X e)"
    using eX eY assms(5) by (auto simp: call_def composed_sign_def)
  have cover: "positives ?R \<union> negatives ?R \<union> zeroes ?R = set (groundset X)"
    using composed_sign_partition [of "set (groundset X)" X Y] by simp
  from built sign cover show ?thesis by simp
qed

theorem composition_signs_witness:
  "positives X_zero \<union> negatives X_zero \<union> zeroes X_zero = set (groundset X_zero)
   \<and> positives X_minus \<union> negatives X_minus \<union> zeroes X_minus = set (groundset X_minus)
   \<and> set (groundset X_minus) = set (groundset X_zero)
   \<and> parent_groundset (parent X_zero) = None
   \<and> PStr ''e'' \<in> set (groundset X_zero)
   \<and> composition (listed_order E1) X_zero X_minus = Inr X_minus
   \<and> call X_zero (PStr ''e'') = Inr 0
   \<and> call X_minus (PStr ''e'') = Inr (- 1)"
proof -
  have h1: "positives X_zero \<union> negatives X_zero \<union> zeroes X_zero = set (groundset X_zero)"
    by (simp add: X_zero_def E1_def)
  have h2: "positives X_minus \<union> negatives X_minus \<union> zeroes X_minus = set (groundset X_minus)"
    by (simp add: X_minus_def E1_def)
  have h3: "set (groundset X_minus) = set (groundset X_zero)"
    by (simp add: X_minus_def X_zero_def)
  have pg: "parent_groundset (parent X_zero) = None"
    by (simp add: X_zero_def Parent_new_def)
  then have h4: "case parent_groundset (parent X_zero) of None \<Rightarrow> True
      | Some pg \<Rightarrow> set pg = set (groundset X_zero)"
    by simp
  have h5: "PStr ''e'' \<in> set (groundset X_zero)"
    by (simp add: X_zero_def E1_def)
  have signs: "call X_zero (PStr ''e'') = Inr 0 \<and> call X_minus (PStr ''e'') = Inr (- 1)"
    by (simp add: call_def X_zero_def X_minus_def)
  from composition_signs [OF h1 h2 h3 h4 h5, of "listed_order E1"]
  obtain R where R: "composition (listed_order E1) X_zero X_minus = Inr R"
    and sign: "call R (PStr ''e'') = (if call X_zero (PStr ''e'') = Inr 0 then call X_minus (PStr ''e'')
         else call X_zero (PStr ''e''))"
    and par: "parent R = parent X_zero"
    and cover: "positives R \<union> negatives R \<union> zeroes R = set (groundset X_zero)"
    and ground: "groundset R = (case parent_groundset (parent X_zero) of
          None \<Rightarrow> listed_order E1 (set (groundset X_zero)) | Some pg \<Rightarrow> pg)"
    by blast
  have res: "composition (listed_order E1) X_zero X_minus = Inr X_minus"
    using composition_result [OF h1 _ h4, of X_minus "listed_order E1"] h2 h3
    by (simp add: X_minus_def X_zero_def E1_def composed_sign_def listed_order_def Parent_new_def)
  with R have "R = X_minus" by simp
  with sign signs have "call X_minus (PStr ''e'') = Inr (- 1)" by simp
  with h1 h2 h3 pg h5 res signs show ?thesis by simp
qed

lemma composed_sign_commute:
  "separation_set X Y = {} \<Longrightarrow> composed_sign X Y e = composed_sign Y X e"
  by (auto simp: separation_set_def composed_sign_def)

text \<open>
  C9: for signed subsets \<open>X\<close>, \<open>Y\<close> over the same ground set (as in C8, for both) with an
  empty separation set, both compositions are built and \<open>X.composition(Y) == Y.composition(X)\<close>.
\<close>

theorem composition_commutes:
  assumes "positives X \<union> negatives X \<union> zeroes X = set (groundset X)"
    and "positives Y \<union> negatives Y \<union> zeroes Y = set (groundset Y)"
    and "set (groundset Y) = set (groundset X)"
    and "case parent_groundset (parent X) of None \<Rightarrow> True | Some pg \<Rightarrow> set pg = set (groundset X)"
    and "case parent_groundset (parent Y) of None \<Rightarrow> True | Some pg \<Rightarrow> set pg = set (groundset Y)"
    and "separation_set X Y = {}"
  shows "\<exists>R1 R2. composition set_order X Y = Inr R1 \<and> composition set_order Y X = Inr R2 \<and> eq R1 R2"
proof -
  from assms(2,3) have Y: "set (groundset X) \<subseteq> positives Y \<union> negatives Y \<union> zeroes Y" by simp
  from assms(1,3) have X: "set (groundset Y) \<subseteq> positives X \<union> negatives X \<union> zeroes X" by simp
  note xy = composition_result [OF assms(1) Y assms(4), of set_order]
  note yx = composition_result [OF assms(2) X assms(5), of set_order]
  have same: "composed_sign Y X e = composed_sign X Y e" for e
    using composed_sign_commute [OF assms(6), of e] by simp
  show ?thesis
    unfolding xy yx by (simp add: eq_def same assms(3))
qed

theorem composition_commutes_witness:
  "positives X_zero \<union> negatives X_zero \<union> zeroes X_zero = set (groundset X_zero)
   \<and> positives X_plus \<union> negatives X_plus \<union> zeroes X_plus = set (groundset X_plus)
   \<and> set (groundset X_plus) = set (groundset X_zero)
   \<and> parent_groundset (parent X_zero) = None \<and> parent_groundset (parent X_plus) = None
   \<and> separation_set X_zero X_plus = {}
   \<and> composition (listed_order E1) X_zero X_plus = Inr X_plus
   \<and> composition (listed_order E1) X_plus X_zero = Inr X_plus
   \<and> eq X_plus X_plus"
proof -
  have h1: "positives X_zero \<union> negatives X_zero \<union> zeroes X_zero = set (groundset X_zero)"
    by (simp add: X_zero_def E1_def)
  have h2: "positives X_plus \<union> negatives X_plus \<union> zeroes X_plus = set (groundset X_plus)"
    by (simp add: X_plus_def E1_def)
  have h3: "set (groundset X_plus) = set (groundset X_zero)"
    by (simp add: X_plus_def X_zero_def)
  have pg: "parent_groundset (parent X_zero) = None \<and> parent_groundset (parent X_plus) = None"
    by (simp add: X_zero_def X_plus_def Parent_new_def)
  then have h4: "case parent_groundset (parent X_zero) of None \<Rightarrow> True
      | Some pg \<Rightarrow> set pg = set (groundset X_zero)"
    and h5: "case parent_groundset (parent X_plus) of None \<Rightarrow> True
      | Some pg \<Rightarrow> set pg = set (groundset X_plus)"
    by simp_all
  have h6: "separation_set X_zero X_plus = {}"
    by (simp add: separation_set_def X_zero_def X_plus_def)
  have zp: "composition (listed_order E1) X_zero X_plus = Inr X_plus"
    using composition_result [OF h1 _ h4, of X_plus "listed_order E1"] h2 h3
    by (simp add: X_plus_def X_zero_def E1_def composed_sign_def listed_order_def Parent_new_def)
  have h3': "set (groundset X_zero) \<subseteq> positives X_zero \<union> negatives X_zero \<union> zeroes X_zero"
    using h1 by simp
  have pz: "composition (listed_order E1) X_plus X_zero = Inr X_plus"
    using composition_result [OF h2 _ h5, of X_zero "listed_order E1"] h1 h3
    by (simp add: X_plus_def X_zero_def E1_def composed_sign_def listed_order_def Parent_new_def)
  from composition_commutes [OF h1 h2 h3 h4 h5 h6, of "listed_order E1"] zp pz
  have "eq X_plus X_plus" by simp
  with h1 h2 h3 pg h6 zp pz show ?thesis by simp
qed

text \<open>
  C10: for a signed subset \<open>X\<close> whose three sets cover its ground set and whose zero set
  is disjoint from the positive and the negative set, and a change set of labels of the
  ground set (a collection, or a single label of the ground set), reorienting twice by
  the change set succeeds and gives a signed subset equal to \<open>X\<close>, over the same ground
  set.
\<close>

theorem reorientation_involution:
  assumes "positives X \<union> negatives X \<union> zeroes X = set (groundset X)"
    and "positives X \<inter> zeroes X = {}" and "negatives X \<inter> zeroes X = {}"
    and "change_set \<in> set (groundset X) \<or> (\<exists>A. change_set = PTuple A \<and> set A \<subseteq> set (groundset X))"
  shows "\<exists>R1 R2. reorientation set_order X change_set = Inr R1
     \<and> reorientation set_order R1 change_set = Inr R2
     \<and> eq R2 X \<and> groundset R2 = groundset X"
proof -
  let ?g = "groundset X"
  obtain B where B: "(if change_set \<in> set ?g then Inr {change_set} else py_set (Val change_set)) = Inr B"
    and sub: "B \<subseteq> set ?g"
    using assms(4) by (cases "change_set \<in> set ?g") auto
  let ?P1 = "(positives X - B) \<union> (negatives X \<inter> B)"
  let ?N1 = "(negatives X - B) \<union> (positives X \<inter> B)"
  let ?R1 = "\<lparr>parent = parent X, positives = ?P1, negatives = ?N1, zeroes = set ?g - ?P1 - ?N1, groundset = ?g\<rparr>"
  have in1: "?P1 \<union> ?N1 \<subseteq> set ?g" using assms(1) by blast
  have r1: "reorientation set_order X change_set = Inr ?R1"
    unfolding reorientation_def B
    using sub keyword_constructed_default_zeroes [OF in1, of set_order "parent X"] by simp
  let ?P2 = "(?P1 - B) \<union> (?N1 \<inter> B)"
  let ?N2 = "(?N1 - B) \<union> (?P1 \<inter> B)"
  let ?R2 = "\<lparr>parent = parent X, positives = ?P2, negatives = ?N2, zeroes = set ?g - ?P2 - ?N2, groundset = ?g\<rparr>"
  have in2: "?P2 \<union> ?N2 \<subseteq> set ?g" using assms(1) by blast
  have B1: "(if change_set \<in> set (groundset ?R1) then Inr {change_set} else py_set (Val change_set)) = Inr B"
    using B by simp
  have r2: "reorientation set_order ?R1 change_set = Inr ?R2"
    unfolding reorientation_def B1
    using sub keyword_constructed_default_zeroes [OF in2, of set_order "parent X"] by simp
  have P2: "?P2 = positives X" by blast
  have N2: "?N2 = negatives X" by blast
  have Z2: "set ?g - positives X - negatives X = zeroes X" using assms(1-3) by blast
  have "eq ?R2 X" unfolding P2 N2 by (simp add: eq_def Z2)
  with r1 r2 show ?thesis by simp
qed

theorem reorientation_involution_witness:
  "positives X_plus \<union> negatives X_plus \<union> zeroes X_plus = set (groundset X_plus)
   \<and> positives X_plus \<inter> zeroes X_plus = {} \<and> negatives X_plus \<inter> zeroes X_plus = {}
   \<and> set [PStr ''e''] \<subseteq> set (groundset X_plus)
   \<and> reorientation (listed_order E1) X_plus (PTuple [PStr ''e'']) = Inr X_minus
   \<and> reorientation (listed_order E1) X_minus (PTuple [PStr ''e'']) = Inr X_plus
   \<and> eq X_plus X_plus"
proof -
  have h1: "positives X_plus \<union> negatives X_plus \<union> zeroes X_plus = set (groundset X_plus)"
    by (simp add: X_plus_def E1_def)
  have h2: "positives X_plus \<inter> zeroes X_plus = {}" and h3: "negatives X_plus \<inter> zeroes X_plus = {}"
    by (simp_all add: X_plus_def)
  have sub: "set [PStr ''e''] \<subseteq> set (groundset X_plus)"
    by (simp add: X_plus_def E1_def)
  then have h4: "PTuple [PStr ''e''] \<in> set (groundset X_plus)
      \<or> (\<exists>A. PTuple [PStr ''e''] = PTuple A \<and> set A \<subseteq> set (groundset X_plus))"
    by blast
  have there: "reorientation (listed_order E1) X_plus (PTuple [PStr ''e'']) = Inr X_minus"
    using keyword_constructed_default_zeroes [of "{}" "{PStr ''e''}" E1 "listed_order E1" Parent_new]
    by (simp add: reorientation_def X_plus_def X_minus_def E1_def)
  have again: "reorientation (listed_order E1) X_minus (PTuple [PStr ''e'']) = Inr X_plus"
    using keyword_constructed_default_zeroes [of "{PStr ''e''}" "{}" E1 "listed_order E1" Parent_new]
    by (simp add: reorientation_def X_plus_def X_minus_def E1_def)
  from reorientation_involution [OF h1 h2 h3 h4, of "listed_order E1"] there again
  have "eq X_plus X_plus" by simp
  with h1 h2 h3 sub there again show ?thesis by simp
qed

section \<open>Covector systems: tope test, validity, face lattice\<close>

text \<open>The example systems are what the constructor builds from their vectors.\<close>

lemmas construct_defs = SignedSubsetElement_def Element_init_def effective_groundset_def parent_is_data_def
      init_sets_def tuple_sets_def sign_tokens_def init_ground_def keyword_sets_def

lemma system_A_constructed:
  "CovectorOrientedMatroid set_order [OTuple [PInt 1], OTuple [PInt (- 1)], OTuple [PInt 0]] (Some E1)
     = Inr system_A"
  by (simp add: CovectorOrientedMatroid_def construct_defs system_A_def A_plus_def A_minus_def A_zero_def
      E1_def matroid_parent_def)

lemma system_pm_constructed:
  "CovectorOrientedMatroid set_order [OTuple [PInt 1], OTuple [PInt (- 1)]] (Some E1) = Inr system_pm"
  by (simp add: CovectorOrientedMatroid_def construct_defs system_pm_def A_plus_def A_minus_def
      E1_def matroid_parent_def)

lemma system_empty_constructed:
  "CovectorOrientedMatroid set_order [] (Some E1) = Inr system_empty"
  by (simp add: CovectorOrientedMatroid_def system_empty_def)

text \<open>
  C1 says that \<open>is_tope\<close> raises the capability error exactly when the parent has no
  \<open>face_lattice\<close>. The code tests the opposite: on a covector of the covector system over
  \<open>['e']\<close>, whose parent has \<open>face_lattice\<close>, it raises \<open>TypeError\<close>, whatever \<open>topes\<close>
  would return; on a signed subset with a bare parent it goes on to call \<open>topes\<close>.
\<close>

theorem is_tope_inverted_test:
  "CovectorOrientedMatroid set_order [OTuple [PInt 1], OTuple [PInt (- 1)], OTuple [PInt 0]] (Some E1)
     = Inr system_A
   \<and> A_plus \<in> set (covectors system_A) \<and> has_face_lattice (parent A_plus)
   \<and> is_tope topes A_plus = Inl (TypeError ''Topes are only implemented if .face_lattice() is implemented'')
   \<and> has_face_lattice (parent X_plus) = False
   \<and> is_tope topes X_plus = and_then (topes Parent_new) (\<lambda>ts. Inr (list_ex (eq X_plus) ts))"
  using system_A_constructed [of set_order]
  by (simp add: is_tope_def A_plus_def X_plus_def system_A_def matroid_parent_def Parent_new_def)

text \<open>Validity and face lattice of the examples.\<close>

lemma is_valid_empty:
  "is_valid set_order system_empty = Inl (UnboundLocalError ''zero_found'')"
  by (simp add: is_valid_def system_empty_def)

lemma face_lattice_A:
  "face_lattice set_order system_A =
     Inl (TypeError ''__deepcopy__() takes 1 positional argument but 2 were given'')"
  by (simp add: face_lattice_def copy_deepcopy_def deepcopy_def system_A_def)

lemma face_lattice_empty:
  "face_lattice set_order system_empty = Inr ([PyInt 1], [])"
  by (simp add: face_lattice_def copy_deepcopy_def system_empty_def face_relations_def with_top_def)

text \<open>
  No step of \<open>is_valid\<close> before its last test raises the error of the missing zero, and
  the flag that the last test reads is never \<open>False\<close>.
\<close>

lemma and_then_Inl_iff:
  "(and_then m f = Inl e) = (m = Inl e \<or> (\<exists>x. m = Inr x \<and> f x = Inl e))"
  by (cases m) auto

lemma for_each_not:
  "(\<And>x. x \<in> set xs \<Longrightarrow> f x \<noteq> Inl e) \<Longrightarrow> for_each f xs \<noteq> Inl e"
  by (induction xs) (auto simp: and_then_Inl_iff)

lemma call_not: "call X v \<noteq> Inl (ValueError ''Empty set is required'')"
  by (simp add: call_def)

lemma py_set_not: "py_set c \<noteq> Inl (ValueError ''Empty set is required'')"
proof (cases c)
  case (Val v)
  then show ?thesis by (cases v) simp_all
next
  case (Elements S)
  then show ?thesis by simp
qed

lemma vector_loop_not: "vector_loop gs i js acc \<noteq> Inl (ValueError ''Empty set is required'')"
proof (induction js arbitrary: i acc)
  case Nil
  then show ?case by simp
next
  case (Cons j js)
  obtain P N Z where acc: "acc = (P, N, Z)" by (cases acc) auto
  show ?case unfolding acc by (simp add: Cons.IH Let_def)
qed

lemma tuple_sets_not: "tuple_sets xs gs \<noteq> Inl (ValueError ''Empty set is required'')"
  unfolding tuple_sets_def
  by (auto split: list.splits option.splits simp: and_then_Inl_iff py_set_not vector_loop_not
      simp del: vector_loop.simps)

lemma dict_entry_not: "dict_entry d short long \<noteq> Inl (ValueError ''Empty set is required'')"
  by (simp add: dict_entry_def py_set_not split: option.splits)

lemma dict_sets_not: "dict_sets d \<noteq> Inl (ValueError ''Empty set is required'')"
  unfolding dict_sets_def by (auto simp: and_then_Inl_iff dict_entry_not)

lemma keyword_sets_not: "keyword_sets ps negs zers gs \<noteq> Inl (ValueError ''Empty set is required'')"
  unfolding keyword_sets_def
  by (auto split: option.splits simp: and_then_Inl_iff py_set_not)

lemma init_sets_not: "init_sets data gs poss negs zers \<noteq> Inl (ValueError ''Empty set is required'')"
  unfolding init_sets_def
  by (cases data) (simp_all add: keyword_sets_not tuple_sets_not dict_sets_not split: option.splits)

lemma init_ground_not: "init_ground set_order gs P N Z \<noteq> Inl (ValueError ''Empty set is required'')"
  by (simp add: init_ground_def split: option.splits)

lemma Element_init_not: "Element_init par sets g \<noteq> Inl (ValueError ''Empty set is required'')"
  by (cases par) (simp_all add: Element_init_def)

lemma SignedSubsetElement_not:
  "SignedSubsetElement set_order par data gsarg poss negs zers \<noteq> Inl (ValueError ''Empty set is required'')"
  unfolding SignedSubsetElement_def Let_def
  by (auto simp: and_then_Inl_iff init_sets_not init_ground_not Element_init_not)

lemma neg_not: "neg set_order X \<noteq> Inl (ValueError ''Empty set is required'')"
  unfolding neg_def copy_def by (auto simp: and_then_Inl_iff SignedSubsetElement_not)

lemma is_zero_not: "is_zero X \<noteq> Inl (ValueError ''Empty set is required'')"
  unfolding is_zero_def by (auto simp: and_then_Inl_iff for_each_not call_not)

lemma composition_loop_not:
  "composition_loop X Y es acc \<noteq> Inl (ValueError ''Empty set is required'')"
proof (induction es arbitrary: acc)
  case Nil
  then show ?case by simp
next
  case (Cons e es)
  obtain p n z where acc: "acc = (p, n, z)" by (cases acc) auto
  show ?case unfolding acc
    by (auto simp: and_then_Inl_iff call_not Cons.IH)
qed

lemma composition_not: "composition set_order X Y \<noteq> Inl (ValueError ''Empty set is required'')"
  unfolding composition_def
  by (auto simp: and_then_Inl_iff composition_loop_not SignedSubsetElement_not)

lemma agree_loop_not: "agree_loop Z xy fs found \<noteq> Inl (ValueError ''Empty set is required'')"
  by (induction fs arbitrary: found) (auto simp: and_then_Inl_iff call_not)

lemma witness_loop_not: "witness_loop Zs e ze xy found \<noteq> Inl (ValueError ''Empty set is required'')"
  by (induction Zs arbitrary: found) (auto simp: and_then_Inl_iff call_not agree_loop_not)

lemma elimination_loop_not: "elimination_loop covs es ze xy \<noteq> Inl (ValueError ''Empty set is required'')"
  by (induction es) (auto simp: and_then_Inl_iff witness_loop_not)

lemma pair_loop_not: "pair_loop set_order M X Ys \<noteq> Inl (ValueError ''Empty set is required'')"
  by (induction Ys) (auto simp: and_then_Inl_iff composition_not elimination_loop_not Let_def)

lemma covector_loop_not:
  "covector_loop set_order M Xs zf \<noteq> Inl (ValueError ''Empty set is required'')"
  by (induction Xs arbitrary: zf) (auto simp: and_then_Inl_iff is_zero_not neg_not pair_loop_not)

lemma covector_loop_zero_found:
  "covector_loop set_order M Xs zf = Inr zf' \<Longrightarrow> zf \<noteq> Some False \<Longrightarrow> zf' \<noteq> Some False"
proof (induction Xs arbitrary: zf)
  case Nil
  then show ?case by simp
next
  case (Cons X Xs)
  from Cons.prems(1) obtain z where "is_zero X = Inr z"
    and "covector_loop set_order M Xs (if z then Some True else zf) = Inr zf'"
    by (auto simp: and_then_Inr_iff split: if_splits)
  moreover have "(if z then Some True else zf) \<noteq> Some False"
    using Cons.prems(2) by simp
  ultimately show ?case using Cons.IH by blast
qed

lemma is_valid_never_reports_missing_zero:
  "is_valid set_order M \<noteq> Inl (ValueError ''Empty set is required'')"
proof (cases "covector_loop set_order M (covectors M) None")
  case (Inl e)
  with covector_loop_not [of set_order M "covectors M" None] show ?thesis
    by (simp add: is_valid_def)
next
  case (Inr zf)
  from covector_loop_zero_found [OF Inr] have "zf \<noteq> Some False" by simp
  with Inr show ?thesis by (cases zf) (auto simp: is_valid_def)
qed

lemma is_valid_pm:
  "is_valid (listed_order E1) system_pm = Inl (ValueError ''weak elimination failed'')"
  by (simp add: is_valid_def system_pm_def A_plus_def A_minus_def is_zero_def call_def neg_def copy_def
      construct_defs E1_def matroid_parent_def contains_def eq_def composition_def separation_set_def
      listed_order_def)

text \<open>
  The covectors of a system built over a given ground set satisfy the conditions under
  which composition is proved above: their three sets cover the ground set, which is the
  ground set of their parent.
\<close>

lemma for_each_Inr_member:
  "for_each f xs = Inr ys \<Longrightarrow> y \<in> set ys \<Longrightarrow> \<exists>x. x \<in> set xs \<and> f x = Inr y"
proof (induction xs arbitrary: ys)
  case Nil
  then show ?case by simp
next
  case (Cons x xs)
  from Cons.prems(1) obtain z zs where z: "f x = Inr z" and zs: "for_each f xs = Inr zs"
    and ys: "ys = z # zs"
    by (auto simp: and_then_Inr_iff)
  from Cons.prems(2) ys consider "y = z" | "y \<in> set zs" by auto
  then show ?case
  proof cases
    case 1
    with z show ?thesis by auto
  next
    case 2
    from Cons.IH [OF zs 2] show ?thesis by auto
  qed
qed

lemma system_elements_well_formed:
  assumes "CovectorOrientedMatroid set_order data (Some g) = Inr M" and "X \<in> set (covectors M)"
  shows "positives X \<union> negatives X \<union> zeroes X = set (groundset X)
     \<and> groundset X = g \<and> matroid_groundset M = g
     \<and> parent_groundset (parent X) = Some g \<and> has_face_lattice (parent X)"
proof -
  from assms(1) obtain covs where
    covs: "for_each (\<lambda>d. SignedSubsetElement set_order (OParent (matroid_parent None)) d (Some g)
        None None None) data = Inr covs"
    and M: "M = \<lparr>covectors = map (\<lambda>X. X\<lparr>parent := matroid_parent (Some g)\<rparr>) covs, matroid_groundset = g\<rparr>"
    by (auto simp: CovectorOrientedMatroid_def and_then_Inr_iff)
  from assms(2) M obtain X0 where X0: "X0 \<in> set covs" and X: "X = X0\<lparr>parent := matroid_parent (Some g)\<rparr>"
    by auto
  from for_each_Inr_member [OF covs X0] obtain d where
    d: "SignedSubsetElement set_order (OParent (matroid_parent None)) d (Some g) None None None = Inr X0"
    by blast
  have "effective_groundset (OParent (matroid_parent None)) (Some g) = Some g"
    by (simp add: effective_groundset_def)
  from constructed_partition [OF d this]
  have "groundset X0 = g \<and> positives X0 \<union> negatives X0 \<union> zeroes X0 = set g" .
  with X M show ?thesis by (simp add: matroid_parent_def)
qed

text \<open>The relations and the elements of the face poset and of the lattice with its top.\<close>

lemma with_top_relations:
  "set (snd (with_top els)) =
     (\<lambda>(Y, X). (Covector Y, Covector X)) ` set (face_relations els)
       \<union> (\<lambda>i. (Covector i, PyInt 1)) ` set els"
  by (simp add: with_top_def)

lemma with_top_elements:
  "set (fst (with_top els)) = Covector ` set els \<union> {PyInt 1} \<and> PyInt 1 \<notin> Covector ` set els"
  by (auto simp: with_top_def)

lemma face_relations_set:
  "set (face_relations els) =
     {(Y, X). X \<in> set els \<and> Y \<in> set els \<and> is_conformal_with Y X \<and> support Y \<subseteq> support X}"
  by (auto simp: face_relations_def)

text \<open>The covectors \<open>(1,)\<close> and \<open>(-1,)\<close> are not zero; the system of all three is valid.\<close>

lemma is_zero_examples:
  "is_zero A_plus = Inr False \<and> is_zero A_minus = Inr False \<and> is_zero A_zero = Inr True"
  by (simp add: is_zero_def call_def A_plus_def A_minus_def A_zero_def E1_def)

lemma is_valid_A:
  "is_valid (listed_order E1) system_A = Inr True"
  by (simp add: is_valid_def system_A_def A_plus_def A_minus_def A_zero_def is_zero_def call_def neg_def
      copy_def construct_defs E1_def matroid_parent_def contains_def eq_def composition_def
      separation_set_def listed_order_def)

text \<open>
  C2 says that \<open>is_valid\<close> on a system without the zero covector raises the validation
  error for the missing zero. The code never raises that error: the flag it tests is
  bound only when a zero covector is met. On the system with no covector the result is
  \<open>UnboundLocalError\<close>; on the system of \<open>(1,)\<close> and \<open>(-1,)\<close> it is the error of the weak
  elimination axiom.
\<close>

theorem is_valid_missing_zero:
  "is_valid set_order M \<noteq> Inl (ValueError ''Empty set is required'')
   \<and> CovectorOrientedMatroid set_order [] (Some E1) = Inr system_empty
   \<and> is_valid set_order system_empty = Inl (UnboundLocalError ''zero_found'')
   \<and> CovectorOrientedMatroid set_order [OTuple [PInt 1], OTuple [PInt (- 1)]] (Some E1) = Inr system_pm
   \<and> is_zero A_plus = Inr False \<and> is_zero A_minus = Inr False
   \<and> is_valid (listed_order E1) system_pm = Inl (ValueError ''weak elimination failed'')"
  using is_valid_never_reports_missing_zero [of set_order M] system_empty_constructed [of set_order]
    is_valid_empty [of set_order] system_pm_constructed [of set_order] is_zero_examples is_valid_pm
  by simp

text \<open>
  C5: the relations of \<open>face_poset\<close> are the pairs \<open>(Y, X)\<close> of covectors with \<open>Y\<close>
  conformal with \<open>X\<close> and the support of \<open>Y\<close> within that of \<open>X\<close>, as the claim says.
  \<open>face_lattice\<close> does not reach its relations on a system that has a covector: the deep
  copy of the covectors raises \<open>TypeError\<close>, since \<open>__deepcopy__\<close> takes no memo. On the
  system with no covector it hands over the top alone. The step after the copy
  (\<open>with_top\<close>) does build the relations of the face poset and the pairs \<open>(i, 1)\<close>, with
  a top that is no covector.
\<close>

theorem face_lattice_deepcopy_fails:
  "set (snd (face_poset M)) =
     {(Y, X). X \<in> set (covectors M) \<and> Y \<in> set (covectors M)
        \<and> is_conformal_with Y X \<and> support Y \<subseteq> support X}
   \<and> fst (face_poset M) = covectors M
   \<and> face_lattice set_order system_A =
       Inl (TypeError ''__deepcopy__() takes 1 positional argument but 2 were given'')
   \<and> face_lattice set_order system_empty = Inr ([PyInt 1], [])
   \<and> set (snd (with_top els)) =
       (\<lambda>(Y, X). (Covector Y, Covector X)) ` set (face_relations els)
         \<union> (\<lambda>i. (Covector i, PyInt 1)) ` set els
   \<and> set (fst (with_top els)) = Covector ` set els \<union> {PyInt 1}
   \<and> PyInt 1 \<notin> Covector ` set els"
  using face_relations_set [of "covectors M"] face_lattice_A [of set_order] face_lattice_empty [of set_order]
    with_top_relations [of els] with_top_elements [of els]
  by (simp add: face_poset_def)

end
